theory Spec2Isabelle
  imports Main "HOL-Library.Word"
begin

unbundle bit_operations_syntax

section \<open>The todo store (services/todo-domain/internal/store/store.go)\<close>

text \<open>
  Go strings are byte sequences, HOL strings are lists of 8-bit characters.
  A \<^verbatim>\<open>time.Time\<close> is an integer instant; \<^verbatim>\<open>[]byte\<close> is a byte string.
\<close>

type_synonym time = int
type_synonym bytes = string

text \<open>The struct \<^verbatim>\<open>store.Todo\<close>, one row of the table \<^verbatim>\<open>todos\<close>.\<close>

record Todo =
  ID :: int
  UserID :: string
  Title :: string
  Description :: string
  Status :: string
  CreatedAt :: time
  UpdatedAt :: time
  CompletedAt :: "time option"
  DeletedAt :: "time option"

text \<open>
  The error values of the package. \<open>ErrOther\<close> stands for every other error that
  \<^verbatim>\<open>database/sql\<close> or \<^verbatim>\<open>encoding/json\<close> hands back.
\<close>

datatype store_error = ErrNotFound | ErrAlreadyExists | ErrNotOwner | ErrOther

text \<open>
  The database behind \<^verbatim>\<open>Store.db\<close>: the rows of \<^verbatim>\<open>todos\<close> in insertion order, the
  table \<^verbatim>\<open>idempotency_keys\<close> (primary key \<^verbatim>\<open>key\<close>, columns \<^verbatim>\<open>response\<close> and
  \<^verbatim>\<open>created_at\<close>) and the last value of the \<^verbatim>\<open>BIGSERIAL\<close> sequence of \<^verbatim>\<open>todos.id\<close>.
  The field \<open>mutation_calls\<close> is a ghost counter: it counts the calls of the four
  mutating store methods and is read by no operation.
\<close>

record DB =
  todos :: "Todo list"
  idempotency_keys :: "string \<rightharpoonup> (bytes \<times> time)"
  todos_id_seq :: int
  mutation_calls :: nat

text \<open>
  What one call gets from outside: the clock (successive reads of \<^verbatim>\<open>time.Now()\<close>
  inside one call are taken as the same instant) and, for each class of statement the
  call sends to the driver, whether the driver answers with an error.  A failed
  statement is not applied.
\<close>

record Env =
  now :: time
  exec_err :: bool
  rows_err :: bool
  query_err :: bool
  idem_select_err :: bool
  idem_insert_err :: bool

text \<open>
  The methods of \<^verbatim>\<open>*Store\<close> carry the prefix \<open>Store_\<close>, those of the gRPC \<^verbatim>\<open>*Server\<close>
  the prefix \<open>Server_\<close> and those of the command service's \<^verbatim>\<open>*Client\<close> the prefix
  \<open>Client_\<close>, where Go tells them apart by the receiver.  Each mutating method of the
  store returns its result and the database it leaves.

  \<^verbatim>\<open>UPDATE todos SET ... WHERE ...\<close>: the new rows and \<^verbatim>\<open>RowsAffected\<close>.
\<close>

definition update_rows :: "(Todo \<Rightarrow> bool) \<Rightarrow> (Todo \<Rightarrow> Todo) \<Rightarrow> Todo list \<Rightarrow> Todo list" where
  "update_rows P f rows = map (\<lambda>r. if P r then f r else r) rows"

definition rows_affected :: "(Todo \<Rightarrow> bool) \<Rightarrow> Todo list \<Rightarrow> nat" where
  "rows_affected P rows = length (filter P rows)"

definition Store_CreateTodo :: "Env \<Rightarrow> DB \<Rightarrow> string \<Rightarrow> string \<Rightarrow> string \<Rightarrow> (store_error + Todo) \<times> DB" where
  "Store_CreateTodo e db userID title description =
    (let db0 = db\<lparr>mutation_calls := Suc (mutation_calls db)\<rparr> in
     if exec_err e then (Inl ErrOther, db0)
     else
       let i = todos_id_seq db0 + 1;
           todo = \<lparr>ID = i, UserID = userID, Title = title, Description = description,
                   Status = ''active'', CreatedAt = now e, UpdatedAt = now e,
                   CompletedAt = None, DeletedAt = None\<rparr>
       in (Inr todo, db0\<lparr>todos := todos db0 @ [todo], todos_id_seq := i\<rparr>))"

definition Store_GetTodo :: "Env \<Rightarrow> DB \<Rightarrow> int \<Rightarrow> store_error + Todo" where
  "Store_GetTodo e db i =
    (if query_err e then Inl ErrOther
     else case find (\<lambda>r. ID r = i) (todos db) of
            None \<Rightarrow> Inl ErrNotFound
          | Some todo \<Rightarrow> Inr todo)"

text \<open>
  \<^verbatim>\<open>ListTodos\<close>: \<^verbatim>\<open>ORDER BY created_at DESC\<close>; SQL leaves the order of rows with equal
  \<^verbatim>\<open>created_at\<close> open, the model keeps them in insertion order.
\<close>

definition Store_ListTodos :: "Env \<Rightarrow> DB \<Rightarrow> string \<Rightarrow> string \<Rightarrow> store_error + Todo list" where
  "Store_ListTodos e db userID status =
    (if query_err e then Inl ErrOther
     else if status \<noteq> ''''
       then Inr (sort_key (\<lambda>r. - CreatedAt r)
                  (filter (\<lambda>r. UserID r = userID \<and> Status r = status) (todos db)))
       else Inr (sort_key (\<lambda>r. - CreatedAt r)
                  (filter (\<lambda>r. UserID r = userID \<and> Status r \<noteq> ''deleted'') (todos db))))"

definition Store_CompleteTodo :: "Env \<Rightarrow> DB \<Rightarrow> int \<Rightarrow> string \<Rightarrow> time \<Rightarrow> (store_error + Todo) \<times> DB" where
  "Store_CompleteTodo e db i userID completedAt =
    (let db0 = db\<lparr>mutation_calls := Suc (mutation_calls db)\<rparr> in
     if exec_err e then (Inl ErrOther, db0)
     else
       let P = (\<lambda>r. ID r = i \<and> UserID r = userID \<and> Status r = ''active'');
           db1 = db0\<lparr>todos := update_rows P
                   (\<lambda>r. r\<lparr>Status := ''completed'', CompletedAt := Some completedAt,
                          UpdatedAt := now e\<rparr>) (todos db0)\<rparr>
       in if rows_err e then (Inl ErrOther, db1)
          else if rows_affected P (todos db0) = 0
            then (case Store_GetTodo e db1 i of
                    Inl err \<Rightarrow>
                      if err = ErrNotFound then (Inl ErrNotFound, db1) else (Inl err, db1)
                  | Inr existing \<Rightarrow>
                      if UserID existing \<noteq> userID then (Inl ErrNotOwner, db1)
                      else (Inr existing, db1))
            else (Store_GetTodo e db1 i, db1))"

definition Store_DeleteTodo :: "Env \<Rightarrow> DB \<Rightarrow> int \<Rightarrow> string \<Rightarrow> (store_error + Todo) \<times> DB" where
  "Store_DeleteTodo e db i userID =
    (let db0 = db\<lparr>mutation_calls := Suc (mutation_calls db)\<rparr> in
     if exec_err e then (Inl ErrOther, db0)
     else
       let P = (\<lambda>r. ID r = i \<and> UserID r = userID \<and> Status r \<noteq> ''deleted'');
           db1 = db0\<lparr>todos := update_rows P
                   (\<lambda>r. r\<lparr>Status := ''deleted'', DeletedAt := Some (now e),
                          UpdatedAt := now e\<rparr>) (todos db0)\<rparr>
       in if rows_err e then (Inl ErrOther, db1)
          else if rows_affected P (todos db0) = 0
            then (case Store_GetTodo e db1 i of
                    Inl err \<Rightarrow>
                      if err = ErrNotFound then (Inl ErrNotFound, db1) else (Inl err, db1)
                  | Inr existing \<Rightarrow>
                      if UserID existing \<noteq> userID then (Inl ErrNotOwner, db1)
                      else (Inr existing, db1))
            else (Store_GetTodo e db1 i, db1))"

definition Store_EditTodo :: "Env \<Rightarrow> DB \<Rightarrow> int \<Rightarrow> string \<Rightarrow> string \<Rightarrow> string \<Rightarrow> (store_error + Todo) \<times> DB" where
  "Store_EditTodo e db i userID title description =
    (let db0 = db\<lparr>mutation_calls := Suc (mutation_calls db)\<rparr> in
     if exec_err e then (Inl ErrOther, db0)
     else
       let P = (\<lambda>r. ID r = i \<and> UserID r = userID \<and> Status r \<noteq> ''deleted'');
           db1 = db0\<lparr>todos := update_rows P
                   (\<lambda>r. r\<lparr>Title := title, Description := description,
                          UpdatedAt := now e\<rparr>) (todos db0)\<rparr>
       in if rows_err e then (Inl ErrOther, db1)
          else if rows_affected P (todos db0) = 0
            then (case Store_GetTodo e db1 i of
                    Inl err \<Rightarrow>
                      if err = ErrNotFound then (Inl ErrNotFound, db1) else (Inl err, db1)
                  | Inr existing \<Rightarrow>
                      if UserID existing \<noteq> userID then (Inl ErrNotOwner, db1)
                      else (Inl ErrNotFound, db1))
            else (Store_GetTodo e db1 i, db1))"

text \<open>
  \<^verbatim>\<open>CheckIdempotencyKey\<close>: \<^verbatim>\<open>sql.ErrNoRows\<close> is \<^verbatim>\<open>(nil, nil)\<close>, here \<open>Inr None\<close>.
\<close>

definition CheckIdempotencyKey :: "Env \<Rightarrow> DB \<Rightarrow> string \<Rightarrow> store_error + bytes option" where
  "CheckIdempotencyKey e db key =
    (if idem_select_err e then Inl ErrOther
     else case idempotency_keys db key of
            None \<Rightarrow> Inr None
          | Some (response, created_at) \<Rightarrow> Inr (Some response))"

section \<open>The gRPC server (services/todo-domain/internal/server/server.go)\<close>

text \<open>
  The generated package \<^verbatim>\<open>api/todo/v1\<close> is not part of the sources; its messages are
  taken from their use in \<^verbatim>\<open>server.go\<close>.  The four response messages each have the one
  field \<^verbatim>\<open>Todo\<close> and are one record here; the request messages are one record with the
  fields that any of them has, each method reading its own (\<open>req_CompletedAt = None\<close>
  is the nil timestamp).
\<close>

datatype TodoStatus =
  TODO_STATUS_UNSPECIFIED | TODO_STATUS_ACTIVE | TODO_STATUS_COMPLETED | TODO_STATUS_DELETED

record pb_Todo =
  pb_Id :: int
  pb_UserId :: string
  pb_Title :: string
  pb_Description :: string
  pb_Status :: TodoStatus
  pb_CreatedAt :: time
  pb_CompletedAt :: "time option"

record Response =
  resp_Todo :: "pb_Todo option"

record Request =
  req_TodoId :: int
  req_UserId :: string
  req_Title :: string
  req_Description :: string
  req_IdempotencyKey :: string
  req_CompletedAt :: "time option"
  req_Status :: TodoStatus

datatype code = InvalidArgument | Internal | NotFound | PermissionDenied

text \<open>\<^verbatim>\<open>status.Error(c, msg)\<close>.\<close>

datatype status = Error code string

text \<open>
  \<^verbatim>\<open>encoding/json\<close> is a library: \<^verbatim>\<open>json.Marshal\<close> and \<^verbatim>\<open>json.Unmarshal\<close> on a
  response are parameters, \<open>None\<close> being their error.
\<close>

record Codec =
  json_Marshal :: "Response \<Rightarrow> bytes option"
  json_Unmarshal :: "bytes \<Rightarrow> Response option"

text \<open>\<^verbatim>\<open>INSERT ... ON CONFLICT (key) DO NOTHING\<close>; the result is the error, if any.\<close>

definition StoreIdempotencyKey :: "Codec \<Rightarrow> Env \<Rightarrow> DB \<Rightarrow> string \<Rightarrow> Response \<Rightarrow> store_error option \<times> DB" where
  "StoreIdempotencyKey c e db key response =
    (case json_Marshal c response of
       None \<Rightarrow> (Some ErrOther, db)
     | Some jsonResponse \<Rightarrow>
         if idem_insert_err e then (Some ErrOther, db)
         else (case idempotency_keys db key of
                 Some row \<Rightarrow> (None, db)
               | None \<Rightarrow>
                   (None, db\<lparr>idempotency_keys :=
                               (idempotency_keys db)(key \<mapsto> (jsonResponse, now e))\<rparr>)))"

definition storeToProto :: "Todo \<Rightarrow> pb_Todo" where
  "storeToProto t =
    \<lparr>pb_Id = ID t, pb_UserId = UserID t, pb_Title = Title t,
     pb_Description = Description t,
     pb_Status =
       (if Status t = ''active'' then TODO_STATUS_ACTIVE
        else if Status t = ''completed'' then TODO_STATUS_COMPLETED
        else if Status t = ''deleted'' then TODO_STATUS_DELETED
        else TODO_STATUS_UNSPECIFIED),
     pb_CreatedAt = CreatedAt t,
     pb_CompletedAt = CompletedAt t\<rparr>"

text \<open>
  The block \<^verbatim>\<open>// Check idempotency key\<close>, which the four mutating methods repeat
  word for word: \<open>Inl\<close> is the early return with \<^verbatim>\<open>codes.Internal\<close>, \<open>Inr (Some resp)\<close>
  the early return of the cached response, \<open>Inr None\<close> falling through to the
  mutation (no key, no record, or a record that does not unmarshal).
\<close>

definition check_idempotency :: "Codec \<Rightarrow> Env \<Rightarrow> DB \<Rightarrow> string \<Rightarrow> status + Response option" where
  "check_idempotency c e db key =
    (if key \<noteq> '''' then
       case CheckIdempotencyKey e db key of
         Inl err \<Rightarrow> Inl (Error Internal ''internal error'')
       | Inr None \<Rightarrow> Inr None
       | Inr (Some cached) \<Rightarrow>
           (case json_Unmarshal c cached of
              Some resp \<Rightarrow> Inr (Some resp)
            | None \<Rightarrow> Inr None)
     else Inr None)"

text \<open>
  The block \<^verbatim>\<open>// Store idempotency key\<close> at the end of the four methods: the error of
  \<^verbatim>\<open>StoreIdempotencyKey\<close> is logged (\<^verbatim>\<open>CreateTodo\<close>) or dropped (the others), never
  returned.
\<close>

definition record_idempotency :: "Codec \<Rightarrow> Env \<Rightarrow> DB \<Rightarrow> string \<Rightarrow> Response \<Rightarrow> DB" where
  "record_idempotency c e db key resp =
    (if key \<noteq> '''' then snd (StoreIdempotencyKey c e db key resp) else db)"

definition Server_CreateTodo :: "Codec \<Rightarrow> Env \<Rightarrow> DB \<Rightarrow> Request \<Rightarrow> (status + Response) \<times> DB" where
  "Server_CreateTodo c e db req =
    (if req_UserId req = '''' then (Inl (Error InvalidArgument ''user_id is required''), db)
     else if req_Title req = '''' then (Inl (Error InvalidArgument ''title is required''), db)
     else case check_idempotency c e db (req_IdempotencyKey req) of
       Inl st \<Rightarrow> (Inl st, db)
     | Inr (Some resp) \<Rightarrow> (Inr resp, db)
     | Inr None \<Rightarrow>
        (case Store_CreateTodo e db (req_UserId req) (req_Title req) (req_Description req) of
           (Inl err, db1) \<Rightarrow> (Inl (Error Internal ''failed to create todo''), db1)
         | (Inr todo, db1) \<Rightarrow>
             let resp = \<lparr>resp_Todo = Some (storeToProto todo)\<rparr>
             in (Inr resp, record_idempotency c e db1 (req_IdempotencyKey req) resp)))"

text \<open>
  How the three methods on an existing todo map the store's error
  (\<^verbatim>\<open>err == store.ErrNotFound\<close>, \<^verbatim>\<open>err == store.ErrNotOwner\<close>, \<^verbatim>\<open>err != nil\<close>); the
  message of the last case names the method.
\<close>

definition map_error :: "string \<Rightarrow> store_error \<Rightarrow> status" where
  "map_error what err =
    (if err = ErrNotFound then Error NotFound ''todo not found''
     else if err = ErrNotOwner then Error PermissionDenied ''you do not own this todo''
     else Error Internal (''failed to '' @ what @ '' todo''))"

definition Server_CompleteTodo :: "Codec \<Rightarrow> Env \<Rightarrow> DB \<Rightarrow> Request \<Rightarrow> (status + Response) \<times> DB" where
  "Server_CompleteTodo c e db req =
    (if req_TodoId req = 0 then (Inl (Error InvalidArgument ''todo_id is required''), db)
     else if req_UserId req = '''' then (Inl (Error InvalidArgument ''user_id is required''), db)
     else case check_idempotency c e db (req_IdempotencyKey req) of
       Inl st \<Rightarrow> (Inl st, db)
     | Inr (Some resp) \<Rightarrow> (Inr resp, db)
     | Inr None \<Rightarrow>
        (let completedAt = (case req_CompletedAt req of None \<Rightarrow> now e | Some t \<Rightarrow> t)
         in case Store_CompleteTodo e db (req_TodoId req) (req_UserId req) completedAt of
           (Inl err, db1) \<Rightarrow> (Inl (map_error ''complete'' err), db1)
         | (Inr todo, db1) \<Rightarrow>
             let resp = \<lparr>resp_Todo = Some (storeToProto todo)\<rparr>
             in (Inr resp, record_idempotency c e db1 (req_IdempotencyKey req) resp)))"

definition Server_DeleteTodo :: "Codec \<Rightarrow> Env \<Rightarrow> DB \<Rightarrow> Request \<Rightarrow> (status + Response) \<times> DB" where
  "Server_DeleteTodo c e db req =
    (if req_TodoId req = 0 then (Inl (Error InvalidArgument ''todo_id is required''), db)
     else if req_UserId req = '''' then (Inl (Error InvalidArgument ''user_id is required''), db)
     else case check_idempotency c e db (req_IdempotencyKey req) of
       Inl st \<Rightarrow> (Inl st, db)
     | Inr (Some resp) \<Rightarrow> (Inr resp, db)
     | Inr None \<Rightarrow>
        (case Store_DeleteTodo e db (req_TodoId req) (req_UserId req) of
           (Inl err, db1) \<Rightarrow> (Inl (map_error ''delete'' err), db1)
         | (Inr todo, db1) \<Rightarrow>
             let resp = \<lparr>resp_Todo = Some (storeToProto todo)\<rparr>
             in (Inr resp, record_idempotency c e db1 (req_IdempotencyKey req) resp)))"

definition Server_EditTodo :: "Codec \<Rightarrow> Env \<Rightarrow> DB \<Rightarrow> Request \<Rightarrow> (status + Response) \<times> DB" where
  "Server_EditTodo c e db req =
    (if req_TodoId req = 0 then (Inl (Error InvalidArgument ''todo_id is required''), db)
     else if req_UserId req = '''' then (Inl (Error InvalidArgument ''user_id is required''), db)
     else case check_idempotency c e db (req_IdempotencyKey req) of
       Inl st \<Rightarrow> (Inl st, db)
     | Inr (Some resp) \<Rightarrow> (Inr resp, db)
     | Inr None \<Rightarrow>
        (case Store_EditTodo e db (req_TodoId req) (req_UserId req) (req_Title req)
                (req_Description req) of
           (Inl err, db1) \<Rightarrow> (Inl (map_error ''edit'' err), db1)
         | (Inr todo, db1) \<Rightarrow>
             let resp = \<lparr>resp_Todo = Some (storeToProto todo)\<rparr>
             in (Inr resp, record_idempotency c e db1 (req_IdempotencyKey req) resp)))"

definition Server_ListTodos :: "Env \<Rightarrow> DB \<Rightarrow> Request \<Rightarrow> status + pb_Todo list" where
  "Server_ListTodos e db req =
    (if req_UserId req = '''' then Inl (Error InvalidArgument ''user_id is required'')
     else
       let statusFilter =
            (case req_Status req of
               TODO_STATUS_ACTIVE \<Rightarrow> ''active''
             | TODO_STATUS_COMPLETED \<Rightarrow> ''completed''
             | TODO_STATUS_DELETED \<Rightarrow> ''deleted''
             | TODO_STATUS_UNSPECIFIED \<Rightarrow> '''')
       in case Store_ListTodos e db (req_UserId req) statusFilter of
            Inl err \<Rightarrow> Inl (Error Internal ''failed to list todos'')
          | Inr rows \<Rightarrow> Inr (map storeToProto rows))"

section \<open>The four mutating methods as one\<close>

text \<open>
  The gRPC service routes a call to one of the four methods by its name.  After their
  validation the four methods have one shape, the \<^verbatim>\<open>Execute(key, mutation)\<close> of the
  specification: look the key up; return the cached response if there is one;
  otherwise take the result of the store's method, map its error to a status or wrap
  its todo in a response, and record the response under the key.
\<close>

datatype rpc = CreateTodo | CompleteTodo | DeleteTodo | EditTodo

definition Server_call :: "rpc \<Rightarrow> Codec \<Rightarrow> Env \<Rightarrow> DB \<Rightarrow> Request \<Rightarrow> (status + Response) \<times> DB" where
  "Server_call m =
    (case m of
       CreateTodo \<Rightarrow> Server_CreateTodo
     | CompleteTodo \<Rightarrow> Server_CompleteTodo
     | DeleteTodo \<Rightarrow> Server_DeleteTodo
     | EditTodo \<Rightarrow> Server_EditTodo)"

text \<open>The requests that a method does not reject with \<^verbatim>\<open>codes.InvalidArgument\<close>.\<close>

definition validates :: "rpc \<Rightarrow> Request \<Rightarrow> bool" where
  "validates m req =
    (case m of
       CreateTodo \<Rightarrow> req_UserId req \<noteq> '''' \<and> req_Title req \<noteq> ''''
     | CompleteTodo \<Rightarrow> req_TodoId req \<noteq> 0 \<and> req_UserId req \<noteq> ''''
     | DeleteTodo \<Rightarrow> req_TodoId req \<noteq> 0 \<and> req_UserId req \<noteq> ''''
     | EditTodo \<Rightarrow> req_TodoId req \<noteq> 0 \<and> req_UserId req \<noteq> '''')"

text \<open>The store's method that a server method calls, with the arguments it passes.\<close>

definition Store_call :: "rpc \<Rightarrow> Env \<Rightarrow> DB \<Rightarrow> Request \<Rightarrow> (store_error + Todo) \<times> DB" where
  "Store_call m e db req =
    (case m of
       CreateTodo \<Rightarrow>
         Store_CreateTodo e db (req_UserId req) (req_Title req) (req_Description req)
     | CompleteTodo \<Rightarrow>
         Store_CompleteTodo e db (req_TodoId req) (req_UserId req)
           (case req_CompletedAt req of None \<Rightarrow> now e | Some t \<Rightarrow> t)
     | DeleteTodo \<Rightarrow> Store_DeleteTodo e db (req_TodoId req) (req_UserId req)
     | EditTodo \<Rightarrow>
         Store_EditTodo e db (req_TodoId req) (req_UserId req) (req_Title req)
           (req_Description req))"

text \<open>The status a server method makes of the store's error.\<close>

definition store_status :: "rpc \<Rightarrow> store_error \<Rightarrow> status" where
  "store_status m =
    (case m of
       CreateTodo \<Rightarrow> (\<lambda>err. Error Internal ''failed to create todo'')
     | CompleteTodo \<Rightarrow> map_error ''complete''
     | DeleteTodo \<Rightarrow> map_error ''delete''
     | EditTodo \<Rightarrow> map_error ''edit'')"

definition with_status :: "(store_error \<Rightarrow> status) \<Rightarrow> (store_error + Todo) \<times> DB \<Rightarrow> (status + Todo) \<times> DB" where
  "with_status f r =
    (case r of
       (Inl err, db1) \<Rightarrow> (Inl (f err), db1)
     | (Inr todo, db1) \<Rightarrow> (Inr todo, db1))"

text \<open>
  \<open>Execute\<close>; \<open>mutation\<close> is the result of the store's method on \<open>db\<close>, read only when
  the lookup finds nothing to return.
\<close>

definition Execute :: "Codec \<Rightarrow> Env \<Rightarrow> DB \<Rightarrow> string \<Rightarrow> (status + Todo) \<times> DB \<Rightarrow> (status + Response) \<times> DB" where
  "Execute c e db key mutation =
    (case check_idempotency c e db key of
       Inl st \<Rightarrow> (Inl st, db)
     | Inr (Some resp) \<Rightarrow> (Inr resp, db)
     | Inr None \<Rightarrow>
        (case mutation of
           (Inl st, db1) \<Rightarrow> (Inl st, db1)
         | (Inr todo, db1) \<Rightarrow>
             (Inr \<lparr>resp_Todo = Some (storeToProto todo)\<rparr>,
              record_idempotency c e db1 key \<lparr>resp_Todo = Some (storeToProto todo)\<rparr>)))"

section \<open>Assumptions on the database, and what the theorems speak of\<close>

text \<open>The primary key of \<^verbatim>\<open>todos\<close>: no two rows share an id.\<close>

definition primary_key :: "DB \<Rightarrow> bool" where
  "primary_key db = distinct (map ID (todos db))"

text \<open>
  The ids of \<^verbatim>\<open>todos\<close> as the \<^verbatim>\<open>BIGSERIAL\<close> column gives them out: distinct, and none
  beyond the last value of the sequence.
\<close>

definition serial_ids :: "DB \<Rightarrow> bool" where
  "serial_ids db = (primary_key db \<and> (\<forall>i \<in> set (map ID (todos db)). i \<le> todos_id_seq db))"

text \<open>
  A call during which the driver reports no error, and one during which it reports
  none on the table \<^verbatim>\<open>todos\<close>.
\<close>

definition no_faults :: "Env \<Rightarrow> bool" where
  "no_faults e = (\<not> exec_err e \<and> \<not> rows_err e \<and> \<not> query_err e
                  \<and> \<not> idem_select_err e \<and> \<not> idem_insert_err e)"

definition store_faults :: "Env \<Rightarrow> bool" where
  "store_faults e = (exec_err e \<or> rows_err e \<or> query_err e)"

text \<open>
  The database after one more call of a mutating store method, and the stored state
  proper: the database without the ghost counter.
\<close>

definition called :: "DB \<Rightarrow> DB" where
  "called db = db\<lparr>mutation_calls := Suc (mutation_calls db)\<rparr>"

definition tables :: "DB \<Rightarrow> Todo list \<times> (string \<rightharpoonup> (bytes \<times> time)) \<times> int" where
  "tables db = (todos db, idempotency_keys db, todos_id_seq db)"

text \<open>
  What the three conditional updates return when the update matches no row.
  \<open>zero_rows_result\<close> is for a row \<open>t\<close> known to carry the id, under any faults of the
  driver, \<open>r\<close> being what the method returns for the owner; \<open>zero_rows_outcome\<close> reads
  the row from the table, the driver reporting no error, \<open>k\<close> being what the method
  does with the owner's row.
\<close>

definition zero_rows_result :: "Env \<Rightarrow> Todo \<Rightarrow> string \<Rightarrow> store_error + Todo \<Rightarrow> store_error + Todo" where
  "zero_rows_result e t userID r =
     (if exec_err e \<or> rows_err e \<or> query_err e then Inl ErrOther
      else if UserID t \<noteq> userID then Inl ErrNotOwner else r)"

definition zero_rows_outcome :: "DB \<Rightarrow> int \<Rightarrow> string \<Rightarrow> (Todo \<Rightarrow> store_error + Todo) \<Rightarrow> store_error + Todo" where
  "zero_rows_outcome db i userID k =
    (case find (\<lambda>r. ID r = i) (todos db) of
       None \<Rightarrow> Inl ErrNotFound
     | Some t \<Rightarrow> if UserID t \<noteq> userID then Inl ErrNotOwner else k t)"

text \<open>
  Two successive dispatches of one request, under \<open>e1\<close> and then \<open>e2\<close>: the second
  returns what the first returned and leaves the tables as the first left them; the
  first calls the store's mutating method at most once; and after a successful first
  response the second leaves the whole database, ghost counter included, as it was.
\<close>

definition dispatched_twice :: "rpc \<Rightarrow> Codec \<Rightarrow> Request \<Rightarrow> Env \<Rightarrow> Env \<Rightarrow> DB \<Rightarrow> bool" where
  "dispatched_twice m c req e1 e2 db =
    (let first = Server_call m c e1 db req;
         second = Server_call m c e2 (snd first) req
     in fst second = fst first
        \<and> tables (snd second) = tables (snd first)
        \<and> mutation_calls (snd first) \<le> Suc (mutation_calls db)
        \<and> (\<not> isl (fst first) \<longrightarrow> snd second = snd first))"

section \<open>Concrete values on which the theorems are run\<close>

text \<open>
  A call without faults; a table with one deleted todo; requests on todo 1 that carry
  no idempotency key, with a codec that is then never used.
\<close>

definition ex_env :: Env where
  "ex_env = \<lparr>now = 200, exec_err = False, rows_err = False, query_err = False,
             idem_select_err = False, idem_insert_err = False\<rparr>"

definition ex_deleted :: Todo where
  "ex_deleted = \<lparr>ID = 1, UserID = ''+15551234567'', Title = ''buy milk'', Description = '''',
     Status = ''deleted'', CreatedAt = 100, UpdatedAt = 150, CompletedAt = None,
     DeletedAt = Some 150\<rparr>"

definition ex_db :: DB where
  "ex_db = \<lparr>todos = [ex_deleted], idempotency_keys = Map.empty, todos_id_seq = 1,
            mutation_calls = 0\<rparr>"

definition ex_codec :: Codec where
  "ex_codec = \<lparr>json_Marshal = (\<lambda>r. None), json_Unmarshal = (\<lambda>b. None)\<rparr>"

definition ex_req :: "string \<Rightarrow> Request" where
  "ex_req u = \<lparr>req_TodoId = 1, req_UserId = u, req_Title = ''buy oat milk'',
     req_Description = '''', req_IdempotencyKey = '''', req_CompletedAt = None,
     req_Status = TODO_STATUS_UNSPECIFIED\<rparr>"

text \<open>
  The scenario of the specification: ``buy milk'' under the key of message \<^verbatim>\<open>SM1\<close>, on
  the empty database; the todo and the response of the first dispatch, and the database
  it leaves.  The codec maps that response to a fixed byte string and back.
\<close>

definition ex_create :: Request where
  "ex_create = \<lparr>req_TodoId = 0, req_UserId = ''+15551234567'', req_Title = ''buy milk'',
     req_Description = '''', req_IdempotencyKey = ''idem_SM1'', req_CompletedAt = None,
     req_Status = TODO_STATUS_UNSPECIFIED\<rparr>"

definition ex_empty :: DB where
  "ex_empty = \<lparr>todos = [], idempotency_keys = Map.empty, todos_id_seq = 0, mutation_calls = 0\<rparr>"

definition ex_todo :: "int \<Rightarrow> Todo" where
  "ex_todo i = \<lparr>ID = i, UserID = ''+15551234567'', Title = ''buy milk'', Description = '''',
     Status = ''active'', CreatedAt = 200, UpdatedAt = 200, CompletedAt = None,
     DeletedAt = None\<rparr>"

definition ex_response :: "int \<Rightarrow> Response" where
  "ex_response i = \<lparr>resp_Todo = Some (storeToProto (ex_todo i))\<rparr>"

definition ex_json :: Codec where
  "ex_json = \<lparr>json_Marshal = (\<lambda>r. if r = ex_response 1 then Some ''{1}'' else Some ''{}''),
              json_Unmarshal = (\<lambda>b. if b = ''{1}'' then Some (ex_response 1) else None)\<rparr>"

definition ex_created :: DB where
  "ex_created = \<lparr>todos = [ex_todo 1], idempotency_keys = [''idem_SM1'' \<mapsto> (''{1}'', 200)],
     todos_id_seq = 1, mutation_calls = 1\<rparr>"

section \<open>The idempotency key (shared/idempotency/key.go)\<close>

text \<open>
  \<^verbatim>\<open>encoding/hex\<close>: \<^verbatim>\<open>EncodeToString\<close> writes, for each byte \<open>v\<close>, \<^verbatim>\<open>hextable[v>>4]\<close> and
  \<^verbatim>\<open>hextable[v&0x0f]\<close>.
\<close>

definition hextable :: string where
  "hextable = ''0123456789abcdef''"

fun EncodeToString :: "8 word list \<Rightarrow> string" where
  "EncodeToString [] = []"
| "EncodeToString (v # src) =
     hextable ! unat (drop_bit 4 v) # hextable ! unat (v AND 0x0f) # EncodeToString src"

text \<open>
  \<^verbatim>\<open>crypto/sha256\<close> is a library: \<^verbatim>\<open>sha256.Sum256\<close> is the parameter \<open>Sum256\<close>, from the
  bytes of the source to the digest (in Go an array of 32 bytes, so that \<^verbatim>\<open>hash[:16]\<close>
  has 16).  \<^verbatim>\<open>fmt.Sprintf("idem_%s", x)\<close> puts the prefix before \<open>x\<close>.
\<close>

definition GenerateKey :: "(string \<Rightarrow> 8 word list) \<Rightarrow> string \<Rightarrow> string" where
  "GenerateKey Sum256 source = ''idem_'' @ EncodeToString (take 16 (Sum256 source))"

text \<open>
  Hexadecimal notation as it is usually defined, by division: the digit for \<open>n < 16\<close>,
  and two digits per byte, the high one first.
\<close>

definition hex_digit :: "nat \<Rightarrow> char" where
  "hex_digit n = (if n < 10 then char_of (48 + n) else char_of (87 + n))"

definition hex_of :: "8 word list \<Rightarrow> string" where
  "hex_of bs = concat (map (\<lambda>b. [hex_digit (unat b div 16), hex_digit (unat b mod 16)]) bs)"

section \<open>The webhook (services/ingress/internal/handler/webhook.go)\<close>

text \<open>
  The two envelopes of \<^verbatim>\<open>publisher\<close> and the two durable queues they are published to,
  \<^verbatim>\<open>audio.processing\<close> and \<^verbatim>\<open>text.commands\<close>.  The fields of the envelopes carry a prefix,
  the Go names being shared between the two structs.
\<close>

record AudioMessage =
  audio_UserID :: string
  audio_MediaURL :: string
  audio_MessageSid :: string
  audio_IdempotencyKey :: string

record TextMessage =
  text_UserID :: string
  text_CommandText :: string
  text_MessageSid :: string
  text_IdempotencyKey :: string

record Queues =
  audio_processing :: "AudioMessage list"
  text_commands :: "TextMessage list"

text \<open>
  \<^verbatim>\<open>PublishAudio\<close> and \<^verbatim>\<open>PublishText\<close>: the flag says whether the broker call returns an
  error, and a publish that returns an error has put nothing on the queue.  The result
  is whether an error is returned.
\<close>

definition PublishAudio :: "bool \<Rightarrow> Queues \<Rightarrow> AudioMessage \<Rightarrow> bool \<times> Queues" where
  "PublishAudio fails q msg =
    (if fails then (True, q) else (False, q\<lparr>audio_processing := audio_processing q @ [msg]\<rparr>))"

definition PublishText :: "bool \<Rightarrow> Queues \<Rightarrow> TextMessage \<Rightarrow> bool \<times> Queues" where
  "PublishText fails q msg =
    (if fails then (True, q) else (False, q\<lparr>text_commands := text_commands q @ [msg]\<rparr>))"

text \<open>
  \<^verbatim>\<open>strings.TrimSpace\<close> of the standard library, for the white space of ASCII
  (\<^verbatim>\<open>\t \n \v \f \r\<close> and the space); white space beyond ASCII is left in place.
\<close>

definition isSpace :: "char \<Rightarrow> bool" where
  "isSpace c = (c \<in> set [CHR 0x09, CHR 0x0A, CHR 0x0B, CHR 0x0C, CHR 0x0D, CHR '' ''])"

definition TrimSpace :: "string \<Rightarrow> string" where
  "TrimSpace s = rev (dropWhile isSpace (rev (dropWhile isSpace s)))"

text \<open>
  The handler (of its fields only the auth token decides anything) and what
  \<^verbatim>\<open>HandleSMS\<close> reads of the HTTP request: the method, whether \<^verbatim>\<open>ParseForm\<close> succeeds, the
  five form values (empty when absent), and what \<^verbatim>\<open>validateSignature\<close>, which asks
  Twilio's validator, returns for it.
\<close>

record WebhookHandler =
  twilioAuthToken :: string

record SMSRequest =
  Method :: string
  ParseForm_ok :: bool
  From :: string
  Body :: string
  MessageSid :: string
  NumMedia :: string
  MediaUrl0 :: string
  signature_valid :: bool

text \<open>
  The response written: \<^verbatim>\<open>http.Error(w, msg, code)\<close> writes \<open>msg\<close> and a newline as plain
  text; the success path writes an empty TwiML document.
\<close>

record HTTPResponse =
  StatusCode :: nat
  ContentType :: string
  ResponseBody :: string

definition http_Error :: "string \<Rightarrow> nat \<Rightarrow> HTTPResponse" where
  "http_Error msg code =
    \<lparr>StatusCode = code, ContentType = ''text/plain; charset=utf-8'',
     ResponseBody = msg @ [CHR 0x0A]\<rparr>"

definition emptyTwiML :: HTTPResponse where
  "emptyTwiML =
    \<lparr>StatusCode = 200, ContentType = ''text/xml'',
     ResponseBody = ''<?xml version='' @ [CHR 0x22] @ ''1.0'' @ [CHR 0x22] @ '' encoding=''
       @ [CHR 0x22] @ ''UTF-8'' @ [CHR 0x22] @ ''?><Response></Response>''\<rparr>"

definition handleAudioMessage :: "bool \<Rightarrow> Queues \<Rightarrow> string \<Rightarrow> string \<Rightarrow> string \<Rightarrow> string \<Rightarrow> bool \<times> Queues" where
  "handleAudioMessage fails q from mediaURL messageSid idemKey =
    PublishAudio fails q
      \<lparr>audio_UserID = from, audio_MediaURL = mediaURL, audio_MessageSid = messageSid,
       audio_IdempotencyKey = idemKey\<rparr>"

definition handleTextMessage :: "bool \<Rightarrow> Queues \<Rightarrow> string \<Rightarrow> string \<Rightarrow> string \<Rightarrow> string \<Rightarrow> bool \<times> Queues" where
  "handleTextMessage fails q from body messageSid idemKey =
    PublishText fails q
      \<lparr>text_UserID = from, text_CommandText = TrimSpace body, text_MessageSid = messageSid,
       text_IdempotencyKey = idemKey\<rparr>"

definition HandleSMS :: "(string \<Rightarrow> 8 word list) \<Rightarrow> WebhookHandler \<Rightarrow> bool \<Rightarrow> Queues \<Rightarrow> SMSRequest \<Rightarrow> HTTPResponse \<times> Queues" where
  "HandleSMS Sum256 h publish_fails q r =
    (if Method r \<noteq> ''POST'' then (http_Error ''Method not allowed'' 405, q)
     else if \<not> ParseForm_ok r then (http_Error ''Bad request'' 400, q)
     else if From r = '''' \<or> MessageSid r = ''''
       then (http_Error ''Missing required fields'' 400, q)
     else if twilioAuthToken h \<noteq> '''' \<and> \<not> signature_valid r
       then (http_Error ''Invalid signature'' 403, q)
     else
       let idemKey = GenerateKey Sum256 (MessageSid r) in
       if NumMedia r \<noteq> '''' \<and> NumMedia r \<noteq> ''0'' \<and> MediaUrl0 r \<noteq> '''' then
         (case handleAudioMessage publish_fails q (From r) (MediaUrl0 r) (MessageSid r) idemKey of
            (True, q') \<Rightarrow> (http_Error ''Internal server error'' 500, q')
          | (False, q') \<Rightarrow> (emptyTwiML, q'))
       else if Body r \<noteq> '''' then
         (case handleTextMessage publish_fails q (From r) (Body r) (MessageSid r) idemKey of
            (True, q') \<Rightarrow> (http_Error ''Internal server error'' 500, q')
          | (False, q') \<Rightarrow> (emptyTwiML, q'))
       else (http_Error ''Empty message'' 400, q))"

text \<open>An event that passes the checks \<^verbatim>\<open>HandleSMS\<close> makes before it classifies.\<close>

definition validated :: "WebhookHandler \<Rightarrow> SMSRequest \<Rightarrow> bool" where
  "validated h r =
    (Method r = ''POST'' \<and> ParseForm_ok r \<and> From r \<noteq> '''' \<and> MessageSid r \<noteq> ''''
     \<and> (twilioAuthToken h = '''' \<or> signature_valid r))"

text \<open>Concrete webhook calls, after the handler's tests.\<close>

definition ex_sms :: "string \<Rightarrow> string \<Rightarrow> string \<Rightarrow> SMSRequest" where
  "ex_sms body numMedia mediaURL =
    \<lparr>Method = ''POST'', ParseForm_ok = True, From = ''+15551234567'', Body = body,
     MessageSid = ''SM123'', NumMedia = numMedia, MediaUrl0 = mediaURL,
     signature_valid = False\<rparr>"

definition ex_handler :: WebhookHandler where
  "ex_handler = \<lparr>twilioAuthToken = ''''\<rparr>"

definition ex_queues :: Queues where
  "ex_queues = \<lparr>audio_processing = [], text_commands = []\<rparr>"

text \<open>A stand-in for the digest, to run \<^verbatim>\<open>GenerateKey\<close> on: 32 bytes that depend on the input.\<close>

definition ex_digest :: "string \<Rightarrow> 8 word list" where
  "ex_digest s = map (\<lambda>n. of_nat (17 * n) + of_char (hd (s @ ''x''))) [0 ..< 32]"

section \<open>The consumer (services/command/internal/consumer/consumer.go)\<close>

text \<open>
  What one pass through the \<^verbatim>\<open>select\<close> of \<^verbatim>\<open>Start\<close> receives: the cancellation of the
  context, the closing of the delivery channel, or a delivery with its body.  A run
  is given the events in the order the \<^verbatim>\<open>select\<close> takes them.
\<close>

datatype event = CtxDone | ChannelClosed | Delivery bytes

text \<open>\<^verbatim>\<open>delivery.Ack(false)\<close> and \<^verbatim>\<open>delivery.Nack(false, requeue)\<close>.\<close>

datatype acknowledgement = Ack | Nack bool

text \<open>
  How \<^verbatim>\<open>Start\<close> ends: with the error of \<^verbatim>\<open>Consume\<close>, with \<^verbatim>\<open>ctx.Err()\<close>, with
  \<^verbatim>\<open>"channel closed"\<close>, or not at all, blocked in the \<^verbatim>\<open>select\<close> when the events run out.
\<close>

datatype exit = ErrConsume | CtxErr | ErrChannelClosed | Waiting

record 'w Run =
  exit_with :: exit
  world :: 'w
  acks :: "(bytes \<times> acknowledgement) list"
  calls :: "(TextMessage \<times> bool) list"

text \<open>
  The \<^verbatim>\<open>for\<close> loop.  \<^verbatim>\<open>json.Unmarshal\<close> into a \<^verbatim>\<open>TextMessage\<close> is the parameter
  \<open>unmarshal\<close> (\<open>None\<close> its error); the handler takes the state and the message and
  returns whether it failed and the new state.  The consumer's \<^verbatim>\<open>TextMessage\<close> has the
  fields of the publisher's and is the same record.
\<close>

fun Start_loop :: "(bytes \<Rightarrow> TextMessage option) \<Rightarrow> ('w \<Rightarrow> TextMessage \<Rightarrow> bool \<times> 'w) \<Rightarrow> event list \<Rightarrow> 'w \<Rightarrow> 'w Run" where
  "Start_loop unmarshal handler [] w =
     \<lparr>exit_with = Waiting, world = w, acks = [], calls = []\<rparr>"
| "Start_loop unmarshal handler (CtxDone # evs) w =
     \<lparr>exit_with = CtxErr, world = w, acks = [], calls = []\<rparr>"
| "Start_loop unmarshal handler (ChannelClosed # evs) w =
     \<lparr>exit_with = ErrChannelClosed, world = w, acks = [], calls = []\<rparr>"
| "Start_loop unmarshal handler (Delivery body # evs) w =
     (case unmarshal body of
        None \<Rightarrow>
          (let rest = Start_loop unmarshal handler evs w
           in rest\<lparr>acks := (body, Nack False) # acks rest\<rparr>)
      | Some msg \<Rightarrow>
          (case handler w msg of
             (True, w1) \<Rightarrow>
               (let rest = Start_loop unmarshal handler evs w1
                in rest\<lparr>acks := (body, Nack True) # acks rest,
                        calls := (msg, True) # calls rest\<rparr>)
           | (False, w1) \<Rightarrow>
               (let rest = Start_loop unmarshal handler evs w1
                in rest\<lparr>acks := (body, Ack) # acks rest,
                        calls := (msg, False) # calls rest\<rparr>)))"

definition Start :: "bool \<Rightarrow> (bytes \<Rightarrow> TextMessage option) \<Rightarrow> ('w \<Rightarrow> TextMessage \<Rightarrow> bool \<times> 'w) \<Rightarrow> event list \<Rightarrow> 'w \<Rightarrow> 'w Run" where
  "Start consume_fails unmarshal handler evs w =
    (if consume_fails then \<lparr>exit_with = ErrConsume, world = w, acks = [], calls = []\<rparr>
     else Start_loop unmarshal handler evs w)"

text \<open>The bodies delivered before the run ends: those up to the first other event.\<close>

fun delivered :: "event list \<Rightarrow> bytes list" where
  "delivered (Delivery body # evs) = body # delivered evs"
| "delivered evs = []"

text \<open>The acknowledgement that answers a call of the handler.\<close>

definition expected_ack :: "bool \<Rightarrow> acknowledgement" where
  "expected_ack failed = (if failed then Nack True else Ack)"

text \<open>A run on three deliveries and a cancellation.\<close>

definition ex_unmarshal :: "bytes \<Rightarrow> TextMessage option" where
  "ex_unmarshal body =
    (if body = ''not json'' then None
     else Some \<lparr>text_UserID = ''+15551234567'', text_CommandText = body,
                text_MessageSid = ''SM123'', text_IdempotencyKey = ''idem_1''\<rparr>)"

definition ex_handle :: "nat \<Rightarrow> TextMessage \<Rightarrow> bool \<times> nat" where
  "ex_handle w msg = (text_CommandText msg = ''fail'', Suc w)"

definition ex_events :: "event list" where
  "ex_events = [Delivery ''not json'', Delivery ''fail'', Delivery ''buy milk'', CtxDone,
                Delivery ''late'']"

section \<open>The domain client of the command service (services/command/internal/domain)\<close>

text \<open>
  \<^verbatim>\<open>for i := range s\<close> over a Go string steps from code point to code point: \<open>i\<close> is the
  index of the first byte of each.  \<open>rune_width s\<close> is the number of bytes the loop
  advances by at the head of \<open>s\<close>, after \<^verbatim>\<open>decoderune\<close> of the Go runtime: 1 for a byte
  below \<^verbatim>\<open>0x80\<close>, the length of a well-formed UTF-8 sequence (not over-long, not a
  surrogate, not beyond \<^verbatim>\<open>U+10FFFF\<close>), and 1 for anything else.
\<close>

definition rune_width :: "string \<Rightarrow> nat" where
  "rune_width s =
    (let b = (\<lambda>k. of_char (s ! k) :: nat);
         cont = (\<lambda>k. 0x80 \<le> b k \<and> b k \<le> 0xBF)
     in if s = [] then 0
        else if b 0 < 0x80 then 1
        else if 0xC0 \<le> b 0 \<and> b 0 < 0xE0 then
          (if 1 < length s \<and> cont 1
              \<and> 0x7F < (b 0 mod 0x20) * 0x40 + b 1 mod 0x40
           then 2 else 1)
        else if 0xE0 \<le> b 0 \<and> b 0 < 0xF0 then
          (if 2 < length s \<and> cont 1 \<and> cont 2
              \<and> (let r = (b 0 mod 0x10) * 0x1000 + (b 1 mod 0x40) * 0x40 + b 2 mod 0x40
                  in 0x7FF < r \<and> \<not> (0xD800 \<le> r \<and> r \<le> 0xDFFF))
           then 3 else 1)
        else if 0xF0 \<le> b 0 \<and> b 0 < 0xF8 then
          (if 3 < length s \<and> cont 1 \<and> cont 2 \<and> cont 3
              \<and> (let r = (b 0 mod 8) * 0x40000 + (b 1 mod 0x40) * 0x1000
                           + (b 2 mod 0x40) * 0x40 + b 3 mod 0x40
                  in 0xFFFF < r \<and> r \<le> 0x10FFFF)
           then 4 else 1)
        else 1)"

text \<open>
  \<^verbatim>\<open>toLower\<close> allocates \<open>len(s)\<close> zero bytes and writes \<^verbatim>\<open>b[i]\<close> only at the indices the
  \<^verbatim>\<open>range\<close> loop visits: the bytes it skips stay zero.
\<close>

fun toLower :: "string \<Rightarrow> string" where
  "toLower [] = []"
| "toLower (c # rest) =
    (let n = of_char c :: nat;
         c' = (if 65 \<le> n \<and> n \<le> 90 then char_of (n + 32) else c);
         skipped = rune_width (c # rest) - 1
     in c' # replicate skipped (CHR 0x00) @ toLower (drop skipped rest))"

text \<open>
  The loop of \<^verbatim>\<open>contains\<close> from index \<open>i\<close> on; \<^verbatim>\<open>len(s)-len(substr)\<close> is an \<^verbatim>\<open>int\<close> and
  may be negative.
\<close>

function contains_from :: "string \<Rightarrow> string \<Rightarrow> nat \<Rightarrow> bool" where
  "contains_from s substr i =
    (if int i \<le> int (length s) - int (length substr) then
       (if take (length substr) (drop i s) = substr then True
        else contains_from s substr (i + 1))
     else False)"
  by pat_completeness auto
termination
  by (relation "measure (\<lambda>(s, substr, i). Suc (length s) - i)") auto

declare contains_from.simps [simp del]

definition contains :: "string \<Rightarrow> string \<Rightarrow> bool" where
  "contains s substr = contains_from s substr 0"

definition containsIgnoreCase :: "string \<Rightarrow> string \<Rightarrow> bool" where
  "containsIgnoreCase s substr = contains (toLower s) (toLower substr)"

text \<open>The \<^verbatim>\<open>for _, todo := range todos\<close> of \<^verbatim>\<open>FindTodoByTitle\<close>.\<close>

fun FindTodoByTitle_range :: "pb_Todo list \<Rightarrow> string \<Rightarrow> pb_Todo option" where
  "FindTodoByTitle_range [] titleHint = None"
| "FindTodoByTitle_range (todo # rest) titleHint =
    (if containsIgnoreCase (pb_Title todo) titleHint then Some todo
     else FindTodoByTitle_range rest titleHint)"

text \<open>
  \<^verbatim>\<open>Client.ListTodos\<close> sends the user and the status filter to the server's
  \<^verbatim>\<open>ListTodos\<close> and returns the todos of the response; \<^verbatim>\<open>FindTodoByTitle\<close> sets no date
  filter.  A failure of the transport is not modelled.
\<close>

definition Client_ListTodos :: "Env \<Rightarrow> DB \<Rightarrow> string \<Rightarrow> TodoStatus \<Rightarrow> status + pb_Todo list" where
  "Client_ListTodos e db userID st =
    Server_ListTodos e db
      \<lparr>req_TodoId = 0, req_UserId = userID, req_Title = '''', req_Description = '''',
       req_IdempotencyKey = '''', req_CompletedAt = None, req_Status = st\<rparr>"

definition FindTodoByTitle :: "Env \<Rightarrow> DB \<Rightarrow> string \<Rightarrow> string \<Rightarrow> status + pb_Todo option" where
  "FindTodoByTitle e db userID titleHint =
    (case Client_ListTodos e db userID TODO_STATUS_ACTIVE of
       Inl err \<Rightarrow> Inl err
     | Inr listed \<Rightarrow> Inr (FindTodoByTitle_range listed titleHint))"

text \<open>
  What the claim calls a case-insensitive substring, defined without the code's
  detour over lower-cased copies: two bytes are the same letter when they are equal
  or are the upper and lower case of one ASCII letter; the hint is a prefix of a title
  when it matches it letter by letter, and a substring when it is a prefix of one of
  its suffixes.
\<close>

definition same_letter :: "char \<Rightarrow> char \<Rightarrow> bool" where
  "same_letter c d =
    (c = d
     \<or> (of_char c :: nat) \<in> {65 .. 90} \<and> (of_char d :: nat) = of_char c + 32
     \<or> (of_char d :: nat) \<in> {65 .. 90} \<and> (of_char c :: nat) = of_char d + 32)"

fun ci_prefix :: "string \<Rightarrow> string \<Rightarrow> bool" where
  "ci_prefix [] s = True"
| "ci_prefix (h # hs) [] = False"
| "ci_prefix (h # hs) (c # cs) = (same_letter h c \<and> ci_prefix hs cs)"

fun ci_substring :: "string \<Rightarrow> string \<Rightarrow> bool" where
  "ci_substring hint [] = ci_prefix hint []"
| "ci_substring hint (c # cs) = (ci_prefix hint (c # cs) \<or> ci_substring hint cs)"

text \<open>
  A todo titled ``cafe'' with an acute accent on the e: in UTF-8 the last letter is the
  two bytes \<^verbatim>\<open>C3 A9\<close>.
\<close>

definition ex_cafe :: Todo where
  "ex_cafe = \<lparr>ID = 1, UserID = ''+15551234567'', Title = ''caf'' @ [CHR 0xC3, CHR 0xA9],
     Description = '''', Status = ''active'', CreatedAt = 100, UpdatedAt = 100,
     CompletedAt = None, DeletedAt = None\<rparr>"

definition ex_cafe_db :: DB where
  "ex_cafe_db = \<lparr>todos = [ex_cafe], idempotency_keys = Map.empty, todos_id_seq = 1,
                 mutation_calls = 0\<rparr>"

text \<open>
  Strings of ASCII bytes, the folding of one letter to lower case, and the substring
  test on exact bytes: what the code's \<^verbatim>\<open>toLower\<close> and \<^verbatim>\<open>contains\<close> amount to on ASCII.
\<close>

definition ascii :: "string \<Rightarrow> bool" where
  "ascii s = (\<forall>c \<in> set s. (of_char c :: nat) < 128)"

definition fold_letter :: "char \<Rightarrow> char" where
  "fold_letter c = (if 65 \<le> (of_char c :: nat) \<and> (of_char c :: nat) \<le> 90
                    then char_of ((of_char c :: nat) + 32) else c)"

fun plain_substring :: "string \<Rightarrow> string \<Rightarrow> bool" where
  "plain_substring sub [] = (sub = [])"
| "plain_substring sub (c # cs) = (take (length sub) (c # cs) = sub \<or> plain_substring sub cs)"

section \<open>Mutations that match no row\<close>

lemma update_rows_none: "rows_affected P rows = 0 \<Longrightarrow> update_rows P f rows = rows"
  by (induction rows) (auto simp: rows_affected_def update_rows_def split: if_splits)

lemma pk_unique:
  "distinct (map ID rows) \<Longrightarrow> t \<in> set rows \<Longrightarrow> r \<in> set rows \<Longrightarrow> ID r = ID t \<Longrightarrow> r = t"
  by (induction rows) (auto simp: rev_image_eqI)

lemma find_pk:
  "distinct (map ID rows) \<Longrightarrow> t \<in> set rows \<Longrightarrow> find (\<lambda>r. ID r = ID t) rows = Some t"
  by (induction rows) (auto simp: rev_image_eqI)

lemma rows_affected_zero:
  assumes "distinct (map ID rows)" "t \<in> set rows" "\<not> Q t"
  shows "rows_affected (\<lambda>r. ID r = ID t \<and> Q r) rows = 0"
proof -
  have "r \<in> set rows \<Longrightarrow> \<not> (ID r = ID t \<and> Q r)" for r
    using pk_unique [OF assms(1) assms(2)] assms(3) by blast
  then show ?thesis
    by (simp add: rows_affected_def)
qed

lemma Store_GetTodo_pk:
  "primary_key db \<Longrightarrow> t \<in> set (todos db) \<Longrightarrow>
   Store_GetTodo e (db\<lparr>mutation_calls := n\<rparr>) (ID t) = (if query_err e then Inl ErrOther else Inr t)"
  by (simp add: Store_GetTodo_def primary_key_def find_pk)

lemma Store_CompleteTodo_zero:
  assumes "primary_key db" "t \<in> set (todos db)" "UserID t \<noteq> userID \<or> Status t \<noteq> ''active''"
  shows "Store_CompleteTodo e db (ID t) userID at = (zero_rows_result e t userID (Inr t), called db)"
proof -
  let ?P = "\<lambda>r. ID r = ID t \<and> (UserID r = userID \<and> Status r = ''active'')"
  have z: "rows_affected ?P (todos db) = 0"
    using assms by (intro rows_affected_zero) (auto simp: primary_key_def)
  show ?thesis
    using assms z
    by (simp add: Store_CompleteTodo_def Let_def update_rows_none Store_GetTodo_pk
        zero_rows_result_def called_def)
qed

lemma Store_DeleteTodo_zero:
  assumes "primary_key db" "t \<in> set (todos db)" "UserID t \<noteq> userID \<or> Status t = ''deleted''"
  shows "Store_DeleteTodo e db (ID t) userID = (zero_rows_result e t userID (Inr t), called db)"
proof -
  let ?P = "\<lambda>r. ID r = ID t \<and> (UserID r = userID \<and> Status r \<noteq> ''deleted'')"
  have z: "rows_affected ?P (todos db) = 0"
    using assms by (intro rows_affected_zero) (auto simp: primary_key_def)
  show ?thesis
    using assms z
    by (simp add: Store_DeleteTodo_def Let_def update_rows_none Store_GetTodo_pk
        zero_rows_result_def called_def)
qed

lemma Store_EditTodo_zero:
  assumes "primary_key db" "t \<in> set (todos db)" "UserID t \<noteq> userID \<or> Status t = ''deleted''"
  shows "Store_EditTodo e db (ID t) userID title description =
           (zero_rows_result e t userID (Inl ErrNotFound), called db)"
proof -
  let ?P = "\<lambda>r. ID r = ID t \<and> (UserID r = userID \<and> Status r \<noteq> ''deleted'')"
  have z: "rows_affected ?P (todos db) = 0"
    using assms by (intro rows_affected_zero) (auto simp: primary_key_def)
  show ?thesis
    using assms z
    by (simp add: Store_EditTodo_def Let_def update_rows_none Store_GetTodo_pk
        zero_rows_result_def called_def)
qed

lemma zero_rows_result_never_NotFound:
  "UserID t \<noteq> userID \<Longrightarrow> zero_rows_result e t userID r \<noteq> Inl ErrNotFound"
  by (simp add: zero_rows_result_def)

lemma check_idempotency_cases:
  "check_idempotency c e db key = Inl (Error Internal ''internal error'')
   \<or> check_idempotency c e db key = Inr None
   \<or> (\<exists>resp. check_idempotency c e db key = Inr (Some resp))"
  by (simp add: check_idempotency_def split: sum.splits option.splits)

lemma Server_CompleteTodo_foreign:
  assumes "primary_key db" "t \<in> set (todos db)" "ID t = req_TodoId req"
    "UserID t \<noteq> req_UserId req"
  shows "fst (Server_CompleteTodo c e db req) \<noteq> Inl (Error NotFound m)"
    and "req_TodoId req \<noteq> 0 \<Longrightarrow> req_UserId req \<noteq> '''' \<Longrightarrow>
         check_idempotency c e db (req_IdempotencyKey req) = Inr None \<Longrightarrow>
         \<not> exec_err e \<Longrightarrow> \<not> rows_err e \<Longrightarrow> \<not> query_err e \<Longrightarrow>
         Server_CompleteTodo c e db req =
           (Inl (Error PermissionDenied ''you do not own this todo''), called db)"
proof -
  have st: "Store_CompleteTodo e db (req_TodoId req) (req_UserId req) at =
      (zero_rows_result e t (req_UserId req) (Inr t), called db)" for at
    using Store_CompleteTodo_zero [of db t "req_UserId req" e at] assms by simp
  show "fst (Server_CompleteTodo c e db req) \<noteq> Inl (Error NotFound m)"
    using check_idempotency_cases [of c e db "req_IdempotencyKey req"]
    by (auto simp: Server_CompleteTodo_def st zero_rows_result_def map_error_def assms(4) Let_def
          split: sum.splits if_splits)
  show "Server_CompleteTodo c e db req =
           (Inl (Error PermissionDenied ''you do not own this todo''), called db)"
    if "req_TodoId req \<noteq> 0" "req_UserId req \<noteq> ''''"
         "check_idempotency c e db (req_IdempotencyKey req) = Inr None"
         "\<not> exec_err e" "\<not> rows_err e" "\<not> query_err e"
    using that assms(4)
    by (simp add: Server_CompleteTodo_def st zero_rows_result_def map_error_def)
qed

lemma Server_DeleteTodo_foreign:
  assumes "primary_key db" "t \<in> set (todos db)" "ID t = req_TodoId req"
    "UserID t \<noteq> req_UserId req"
  shows "fst (Server_DeleteTodo c e db req) \<noteq> Inl (Error NotFound m)"
    and "req_TodoId req \<noteq> 0 \<Longrightarrow> req_UserId req \<noteq> '''' \<Longrightarrow>
         check_idempotency c e db (req_IdempotencyKey req) = Inr None \<Longrightarrow>
         \<not> exec_err e \<Longrightarrow> \<not> rows_err e \<Longrightarrow> \<not> query_err e \<Longrightarrow>
         Server_DeleteTodo c e db req =
           (Inl (Error PermissionDenied ''you do not own this todo''), called db)"
proof -
  have st: "Store_DeleteTodo e db (req_TodoId req) (req_UserId req) =
      (zero_rows_result e t (req_UserId req) (Inr t), called db)"
    using Store_DeleteTodo_zero [of db t "req_UserId req" e] assms by simp
  show "fst (Server_DeleteTodo c e db req) \<noteq> Inl (Error NotFound m)"
    using check_idempotency_cases [of c e db "req_IdempotencyKey req"]
    by (auto simp: Server_DeleteTodo_def st zero_rows_result_def map_error_def assms(4) Let_def
          split: sum.splits if_splits)
  show "Server_DeleteTodo c e db req =
           (Inl (Error PermissionDenied ''you do not own this todo''), called db)"
    if "req_TodoId req \<noteq> 0" "req_UserId req \<noteq> ''''"
         "check_idempotency c e db (req_IdempotencyKey req) = Inr None"
         "\<not> exec_err e" "\<not> rows_err e" "\<not> query_err e"
    using that assms(4)
    by (simp add: Server_DeleteTodo_def st zero_rows_result_def map_error_def)
qed

lemma Server_EditTodo_foreign:
  assumes "primary_key db" "t \<in> set (todos db)" "ID t = req_TodoId req"
    "UserID t \<noteq> req_UserId req"
  shows "fst (Server_EditTodo c e db req) \<noteq> Inl (Error NotFound m)"
    and "req_TodoId req \<noteq> 0 \<Longrightarrow> req_UserId req \<noteq> '''' \<Longrightarrow>
         check_idempotency c e db (req_IdempotencyKey req) = Inr None \<Longrightarrow>
         \<not> exec_err e \<Longrightarrow> \<not> rows_err e \<Longrightarrow> \<not> query_err e \<Longrightarrow>
         Server_EditTodo c e db req =
           (Inl (Error PermissionDenied ''you do not own this todo''), called db)"
proof -
  have st: "Store_EditTodo e db (req_TodoId req) (req_UserId req) ti de =
      (zero_rows_result e t (req_UserId req) (Inl ErrNotFound), called db)" for ti de
    using Store_EditTodo_zero [of db t "req_UserId req" e ti de] assms by simp
  show "fst (Server_EditTodo c e db req) \<noteq> Inl (Error NotFound m)"
    using check_idempotency_cases [of c e db "req_IdempotencyKey req"]
    by (auto simp: Server_EditTodo_def st zero_rows_result_def map_error_def assms(4) Let_def
          split: sum.splits if_splits)
  show "Server_EditTodo c e db req =
           (Inl (Error PermissionDenied ''you do not own this todo''), called db)"
    if "req_TodoId req \<noteq> 0" "req_UserId req \<noteq> ''''"
         "check_idempotency c e db (req_IdempotencyKey req) = Inr None"
         "\<not> exec_err e" "\<not> rows_err e" "\<not> query_err e"
    using that assms(4)
    by (simp add: Server_EditTodo_def st zero_rows_result_def map_error_def)
qed

text \<open>
  Claim C2.  Let the target id be that of a stored todo \<open>t\<close> whose \<^verbatim>\<open>user_id\<close> is not the
  caller's.  When the driver reports no error, \<^verbatim>\<open>CompleteTodo\<close>, \<^verbatim>\<open>DeleteTodo\<close> and
  \<^verbatim>\<open>EditTodo\<close> of the store return \<^verbatim>\<open>ErrNotOwner\<close>, and the gRPC methods, on a request
  that passes validation and is not answered from the idempotency records, return
  \<^verbatim>\<open>codes.PermissionDenied\<close>.  Whatever the driver does, and whatever the idempotency
  records hold, neither the store nor the server reports not-found.
\<close>

theorem foreign_todo_is_permission_denied:
  assumes "primary_key db" and "t \<in> set (todos db)" and "ID t = req_TodoId req"
    and "UserID t \<noteq> req_UserId req"
  shows
    "(\<not> exec_err e \<and> \<not> rows_err e \<and> \<not> query_err e \<longrightarrow>
        fst (Store_CompleteTodo e db (req_TodoId req) (req_UserId req) completedAt) = Inl ErrNotOwner
      \<and> fst (Store_DeleteTodo e db (req_TodoId req) (req_UserId req)) = Inl ErrNotOwner
      \<and> fst (Store_EditTodo e db (req_TodoId req) (req_UserId req) title description) = Inl ErrNotOwner)
   \<and> fst (Store_CompleteTodo e db (req_TodoId req) (req_UserId req) completedAt) \<noteq> Inl ErrNotFound
   \<and> fst (Store_DeleteTodo e db (req_TodoId req) (req_UserId req)) \<noteq> Inl ErrNotFound
   \<and> fst (Store_EditTodo e db (req_TodoId req) (req_UserId req) title description) \<noteq> Inl ErrNotFound
   \<and> (\<not> exec_err e \<and> \<not> rows_err e \<and> \<not> query_err e \<and> req_TodoId req \<noteq> 0
        \<and> req_UserId req \<noteq> '''' \<and> check_idempotency c e db (req_IdempotencyKey req) = Inr None \<longrightarrow>
        fst (Server_CompleteTodo c e db req) = Inl (Error PermissionDenied ''you do not own this todo'')
      \<and> fst (Server_DeleteTodo c e db req) = Inl (Error PermissionDenied ''you do not own this todo'')
      \<and> fst (Server_EditTodo c e db req) = Inl (Error PermissionDenied ''you do not own this todo''))
   \<and> (\<forall>m. fst (Server_CompleteTodo c e db req) \<noteq> Inl (Error NotFound m)
          \<and> fst (Server_DeleteTodo c e db req) \<noteq> Inl (Error NotFound m)
          \<and> fst (Server_EditTodo c e db req) \<noteq> Inl (Error NotFound m))"
proof -
  note own = assms(4)
  have a: "UserID t \<noteq> req_UserId req \<or> Status t \<noteq> ''active''"
    and b: "UserID t \<noteq> req_UserId req \<or> Status t = ''deleted''"
    using own by simp_all
  have c1: "Store_CompleteTodo e db (req_TodoId req) (req_UserId req) completedAt =
      (zero_rows_result e t (req_UserId req) (Inr t), called db)"
    using Store_CompleteTodo_zero [OF assms(1,2) a] assms(3) by simp
  have c2: "Store_DeleteTodo e db (req_TodoId req) (req_UserId req) =
      (zero_rows_result e t (req_UserId req) (Inr t), called db)"
    using Store_DeleteTodo_zero [OF assms(1,2) b] assms(3) by simp
  have c3: "Store_EditTodo e db (req_TodoId req) (req_UserId req) title description =
      (zero_rows_result e t (req_UserId req) (Inl ErrNotFound), called db)"
    using Store_EditTodo_zero [OF assms(1,2) b] assms(3) by simp
  have store_ok: "\<not> exec_err e \<and> \<not> rows_err e \<and> \<not> query_err e \<longrightarrow>
        fst (Store_CompleteTodo e db (req_TodoId req) (req_UserId req) completedAt) = Inl ErrNotOwner
      \<and> fst (Store_DeleteTodo e db (req_TodoId req) (req_UserId req)) = Inl ErrNotOwner
      \<and> fst (Store_EditTodo e db (req_TodoId req) (req_UserId req) title description) = Inl ErrNotOwner"
    using own by (simp add: c1 c2 c3 zero_rows_result_def)
  have store_never:
    "fst (Store_CompleteTodo e db (req_TodoId req) (req_UserId req) completedAt) \<noteq> Inl ErrNotFound"
    "fst (Store_DeleteTodo e db (req_TodoId req) (req_UserId req)) \<noteq> Inl ErrNotFound"
    "fst (Store_EditTodo e db (req_TodoId req) (req_UserId req) title description) \<noteq> Inl ErrNotFound"
    using own by (simp_all add: c1 c2 c3 zero_rows_result_never_NotFound)
  have server_ok: "\<not> exec_err e \<and> \<not> rows_err e \<and> \<not> query_err e \<and> req_TodoId req \<noteq> 0
        \<and> req_UserId req \<noteq> '''' \<and> check_idempotency c e db (req_IdempotencyKey req) = Inr None \<longrightarrow>
        fst (Server_CompleteTodo c e db req) = Inl (Error PermissionDenied ''you do not own this todo'')
      \<and> fst (Server_DeleteTodo c e db req) = Inl (Error PermissionDenied ''you do not own this todo'')
      \<and> fst (Server_EditTodo c e db req) = Inl (Error PermissionDenied ''you do not own this todo'')"
    using Server_CompleteTodo_foreign(2) [OF assms, of c e]
      Server_DeleteTodo_foreign(2) [OF assms, of c e]
      Server_EditTodo_foreign(2) [OF assms, of c e]
    by simp
  have server_never: "\<forall>m. fst (Server_CompleteTodo c e db req) \<noteq> Inl (Error NotFound m)
          \<and> fst (Server_DeleteTodo c e db req) \<noteq> Inl (Error NotFound m)
          \<and> fst (Server_EditTodo c e db req) \<noteq> Inl (Error NotFound m)"
    using Server_CompleteTodo_foreign(1) [OF assms]
      Server_DeleteTodo_foreign(1) [OF assms]
      Server_EditTodo_foreign(1) [OF assms]
    by blast
  from store_ok store_never server_ok server_never show ?thesis
    by blast
qed

text \<open>
  Claim C3.  Let \<open>t\<close> be a todo of the caller and let the driver report no error.
  If \<open>t\<close> is already completed or deleted, the update of \<^verbatim>\<open>CompleteTodo\<close>, restricted to
  \<^verbatim>\<open>status = 'active'\<close>, affects zero rows, and the method returns \<open>t\<close> as it is stored,
  without an error; the tables are left as they were (only the ghost counter of calls
  moves).  \<^verbatim>\<open>DeleteTodo\<close> does the same when \<open>t\<close> is already deleted: its update is
  restricted to \<^verbatim>\<open>status != 'deleted'\<close>.
\<close>

theorem already_done_is_noop_success:
  assumes "primary_key db" and "t \<in> set (todos db)" and "UserID t = userID"
    and "\<not> exec_err e" and "\<not> rows_err e" and "\<not> query_err e"
  shows
    "(Status t = ''completed'' \<or> Status t = ''deleted'' \<longrightarrow>
        rows_affected (\<lambda>r. ID r = ID t \<and> UserID r = userID \<and> Status r = ''active'') (todos db) = 0
      \<and> Store_CompleteTodo e db (ID t) userID completedAt =
          (Inr t, db\<lparr>mutation_calls := Suc (mutation_calls db)\<rparr>))
   \<and> (Status t = ''deleted'' \<longrightarrow>
        rows_affected (\<lambda>r. ID r = ID t \<and> UserID r = userID \<and> Status r \<noteq> ''deleted'') (todos db) = 0
      \<and> Store_DeleteTodo e db (ID t) userID =
          (Inr t, db\<lparr>mutation_calls := Suc (mutation_calls db)\<rparr>))"
proof (intro conjI impI)
  assume s: "Status t = ''completed'' \<or> Status t = ''deleted''"
  then have na: "\<not> (UserID t = userID \<and> Status t = ''active'')"
    by auto
  show "rows_affected (\<lambda>r. ID r = ID t \<and> UserID r = userID \<and> Status r = ''active'') (todos db) = 0"
    using rows_affected_zero [of "todos db" t "\<lambda>r. UserID r = userID \<and> Status r = ''active''"]
      assms(1,2) na by (simp add: primary_key_def)
  from na have "UserID t \<noteq> userID \<or> Status t \<noteq> ''active''"
    by simp
  from Store_CompleteTodo_zero [OF assms(1,2) this, of e completedAt]
  show "Store_CompleteTodo e db (ID t) userID completedAt =
          (Inr t, db\<lparr>mutation_calls := Suc (mutation_calls db)\<rparr>)"
    using assms(3-6) by (simp add: zero_rows_result_def called_def)
next
  assume s: "Status t = ''deleted''"
  then have nd: "\<not> (UserID t = userID \<and> Status t \<noteq> ''deleted'')"
    by simp
  show "rows_affected (\<lambda>r. ID r = ID t \<and> UserID r = userID \<and> Status r \<noteq> ''deleted'') (todos db) = 0"
    using rows_affected_zero [of "todos db" t "\<lambda>r. UserID r = userID \<and> Status r \<noteq> ''deleted''"]
      assms(1,2) nd by (simp add: primary_key_def)
  from s have "UserID t \<noteq> userID \<or> Status t = ''deleted''"
    by simp
  from Store_DeleteTodo_zero [OF assms(1,2) this, of e]
  show "Store_DeleteTodo e db (ID t) userID =
          (Inr t, db\<lparr>mutation_calls := Suc (mutation_calls db)\<rparr>)"
    using assms(3-6) by (simp add: zero_rows_result_def called_def)
qed

text \<open>The same on a table with one deleted todo, completed and deleted again by its owner.\<close>

theorem already_done_is_noop_success_witness:
  "Store_CompleteTodo ex_env ex_db 1 ''+15551234567'' 300 =
     (Inr ex_deleted, ex_db\<lparr>mutation_calls := 1\<rparr>)
   \<and> Store_DeleteTodo ex_env ex_db 1 ''+15551234567'' =
     (Inr ex_deleted, ex_db\<lparr>mutation_calls := 1\<rparr>)"
  using already_done_is_noop_success [of ex_db ex_deleted "''+15551234567''" ex_env 300]
  by (simp add: primary_key_def ex_db_def ex_deleted_def ex_env_def)

text \<open>
  Claim C8.  Let \<open>t\<close> be a deleted todo of the caller and let the driver report no
  error.  \<^verbatim>\<open>Store.EditTodo\<close> returns \<^verbatim>\<open>ErrNotFound\<close> and changes no table; the gRPC method,
  on a request that passes validation and is not answered from the idempotency
  records, returns \<^verbatim>\<open>codes.NotFound\<close>.  (\<^verbatim>\<open>CompleteTodo\<close> and \<^verbatim>\<open>DeleteTodo\<close> on the same todo
  succeed: see C3.)
\<close>

theorem edit_deleted_is_not_found:
  assumes "primary_key db" and "t \<in> set (todos db)" and "ID t = req_TodoId req"
    and "UserID t = req_UserId req" and "Status t = ''deleted''"
    and "\<not> exec_err e" and "\<not> rows_err e" and "\<not> query_err e"
  shows
    "Store_EditTodo e db (req_TodoId req) (req_UserId req) (req_Title req) (req_Description req) =
       (Inl ErrNotFound, db\<lparr>mutation_calls := Suc (mutation_calls db)\<rparr>)
   \<and> (req_TodoId req \<noteq> 0 \<and> req_UserId req \<noteq> ''''
        \<and> check_idempotency c e db (req_IdempotencyKey req) = Inr None \<longrightarrow>
      Server_EditTodo c e db req =
       (Inl (Error NotFound ''todo not found''), db\<lparr>mutation_calls := Suc (mutation_calls db)\<rparr>))"
proof -
  from assms(5) have "UserID t \<noteq> req_UserId req \<or> Status t = ''deleted''"
    by simp
  from Store_EditTodo_zero [OF assms(1,2) this, of e "req_Title req" "req_Description req"]
  have st: "Store_EditTodo e db (req_TodoId req) (req_UserId req) (req_Title req)
      (req_Description req) = (Inl ErrNotFound, db\<lparr>mutation_calls := Suc (mutation_calls db)\<rparr>)"
    using assms(3,4,6-8) by (simp add: zero_rows_result_def called_def)
  then show ?thesis
    by (simp add: Server_EditTodo_def map_error_def)
qed

text \<open>An edit of the deleted todo of the example table by its owner.\<close>

theorem edit_deleted_is_not_found_witness:
  "Store_EditTodo ex_env ex_db 1 ''+15551234567'' ''buy oat milk'' '''' =
     (Inl ErrNotFound, ex_db\<lparr>mutation_calls := 1\<rparr>)
   \<and> Server_EditTodo ex_codec ex_env ex_db (ex_req ''+15551234567'') =
     (Inl (Error NotFound ''todo not found''), ex_db\<lparr>mutation_calls := 1\<rparr>)"
  using edit_deleted_is_not_found [of ex_db ex_deleted "ex_req ''+15551234567''" ex_env ex_codec]
  by (simp add: primary_key_def ex_db_def ex_deleted_def ex_env_def ex_req_def
      check_idempotency_def)

text \<open>A second user completing, deleting and editing the todo of the example table.\<close>

theorem foreign_todo_is_permission_denied_witness:
  "fst (Store_CompleteTodo ex_env ex_db 1 ''+15557654321'' 300) = Inl ErrNotOwner
   \<and> fst (Store_DeleteTodo ex_env ex_db 1 ''+15557654321'') = Inl ErrNotOwner
   \<and> fst (Store_EditTodo ex_env ex_db 1 ''+15557654321'' ''x'' ''y'') = Inl ErrNotOwner
   \<and> fst (Server_CompleteTodo ex_codec ex_env ex_db (ex_req ''+15557654321'')) =
       Inl (Error PermissionDenied ''you do not own this todo'')
   \<and> fst (Server_DeleteTodo ex_codec ex_env ex_db (ex_req ''+15557654321'')) =
       Inl (Error PermissionDenied ''you do not own this todo'')
   \<and> fst (Server_EditTodo ex_codec ex_env ex_db (ex_req ''+15557654321'')) =
       Inl (Error PermissionDenied ''you do not own this todo'')"
  using foreign_todo_is_permission_denied
    [of ex_db ex_deleted "ex_req ''+15557654321''" ex_env 300 "''x''" "''y''" ex_codec]
  by (simp add: primary_key_def ex_db_def ex_deleted_def ex_env_def ex_req_def
      check_idempotency_def)

section \<open>Replay under an idempotency key\<close>

lemma find_update_rows:
  assumes "rows_affected P rows \<noteq> 0" "\<And>r. P r \<Longrightarrow> ID r = i" "\<And>r. ID (f r) = ID r"
  shows "\<exists>t. find (\<lambda>r. ID r = i) (update_rows P f rows) = Some t"
proof -
  from assms(1) obtain r where r: "r \<in> set rows" "P r"
    by (auto simp: rows_affected_def filter_empty_conv)
  then have "f r \<in> set (update_rows P f rows)"
    by (force simp: update_rows_def)
  moreover have "ID (f r) = i"
    using r assms(2,3) by simp
  ultimately have "find (\<lambda>r. ID r = i) (update_rows P f rows) \<noteq> None"
    by (auto simp: find_None_iff)
  then show ?thesis by auto
qed

lemma Store_GetTodo_after_update:
  assumes "todos db' = update_rows P f rows" "rows_affected P rows \<noteq> 0"
    "\<And>r. P r \<Longrightarrow> ID r = i" "\<And>r. ID (f r) = ID r" "\<not> query_err e"
  shows "\<exists>t. Store_GetTodo e db' i = Inr t"
  using find_update_rows [of P rows i f] assms
  by (auto simp: Store_GetTodo_def)

lemma zero_rows_outcome_called [simp]:
  "zero_rows_outcome (called db) i u k = zero_rows_outcome db i u k"
  by (simp add: zero_rows_outcome_def called_def)

lemma Store_CompleteTodo_cases:
  assumes "\<not> store_faults e"
  shows "(rows_affected (\<lambda>r. ID r = i \<and> UserID r = u \<and> Status r = ''active'') (todos db) = 0
           \<and> Store_CompleteTodo e db i u at = (zero_rows_outcome db i u Inr, called db))
       \<or> (rows_affected (\<lambda>r. ID r = i \<and> UserID r = u \<and> Status r = ''active'') (todos db) \<noteq> 0
           \<and> (\<exists>t. fst (Store_CompleteTodo e db i u at) = Inr t))"
proof (cases "rows_affected (\<lambda>r. ID r = i \<and> UserID r = u \<and> Status r = ''active'') (todos db) = 0")
  case True
  then show ?thesis
    using assms
    by (auto simp: Store_CompleteTodo_def Let_def update_rows_none Store_GetTodo_def
        zero_rows_outcome_def called_def store_faults_def split: option.splits)
next
  case False
  have "\<exists>t. fst (Store_CompleteTodo e db i u at) = Inr t"
    using assms False
    by (auto simp: Store_CompleteTodo_def Let_def store_faults_def
        intro!: Store_GetTodo_after_update [where rows = "todos db"])
  with False show ?thesis
    by blast
qed

lemma Store_DeleteTodo_cases:
  assumes "\<not> store_faults e"
  shows "(rows_affected (\<lambda>r. ID r = i \<and> UserID r = u \<and> Status r \<noteq> ''deleted'') (todos db) = 0
           \<and> Store_DeleteTodo e db i u = (zero_rows_outcome db i u Inr, called db))
       \<or> (rows_affected (\<lambda>r. ID r = i \<and> UserID r = u \<and> Status r \<noteq> ''deleted'') (todos db) \<noteq> 0
           \<and> (\<exists>t. fst (Store_DeleteTodo e db i u) = Inr t))"
proof (cases "rows_affected (\<lambda>r. ID r = i \<and> UserID r = u \<and> Status r \<noteq> ''deleted'') (todos db) = 0")
  case True
  then show ?thesis
    using assms
    by (auto simp: Store_DeleteTodo_def Let_def update_rows_none Store_GetTodo_def
        zero_rows_outcome_def called_def store_faults_def split: option.splits)
next
  case False
  have "\<exists>t. fst (Store_DeleteTodo e db i u) = Inr t"
    using assms False
    by (auto simp: Store_DeleteTodo_def Let_def store_faults_def
        intro!: Store_GetTodo_after_update [where rows = "todos db"])
  with False show ?thesis
    by blast
qed

lemma Store_EditTodo_cases:
  assumes "\<not> store_faults e"
  shows "(rows_affected (\<lambda>r. ID r = i \<and> UserID r = u \<and> Status r \<noteq> ''deleted'') (todos db) = 0
           \<and> Store_EditTodo e db i u ti de =
               (zero_rows_outcome db i u (\<lambda>t. Inl ErrNotFound), called db))
       \<or> (rows_affected (\<lambda>r. ID r = i \<and> UserID r = u \<and> Status r \<noteq> ''deleted'') (todos db) \<noteq> 0
           \<and> (\<exists>t. fst (Store_EditTodo e db i u ti de) = Inr t))"
proof (cases "rows_affected (\<lambda>r. ID r = i \<and> UserID r = u \<and> Status r \<noteq> ''deleted'') (todos db) = 0")
  case True
  then show ?thesis
    using assms
    by (auto simp: Store_EditTodo_def Let_def update_rows_none Store_GetTodo_def
        zero_rows_outcome_def called_def store_faults_def split: option.splits)
next
  case False
  have "\<exists>t. fst (Store_EditTodo e db i u ti de) = Inr t"
    using assms False
    by (auto simp: Store_EditTodo_def Let_def store_faults_def
        intro!: Store_GetTodo_after_update [where rows = "todos db"])
  with False show ?thesis
    by blast
qed

lemma Server_CreateTodo_Execute:
  "Server_CreateTodo c e db req =
    (if req_UserId req = '''' then (Inl (Error InvalidArgument ''user_id is required''), db)
     else if req_Title req = '''' then (Inl (Error InvalidArgument ''title is required''), db)
     else Execute c e db (req_IdempotencyKey req)
            (with_status (\<lambda>err. Error Internal ''failed to create todo'')
               (Store_CreateTodo e db (req_UserId req) (req_Title req) (req_Description req))))"
  by (simp add: Server_CreateTodo_def Execute_def with_status_def Let_def
      split: sum.splits option.splits prod.splits)

lemma Server_CompleteTodo_Execute:
  "Server_CompleteTodo c e db req =
    (if req_TodoId req = 0 then (Inl (Error InvalidArgument ''todo_id is required''), db)
     else if req_UserId req = '''' then (Inl (Error InvalidArgument ''user_id is required''), db)
     else Execute c e db (req_IdempotencyKey req)
            (with_status (map_error ''complete'')
               (Store_CompleteTodo e db (req_TodoId req) (req_UserId req)
                  (case req_CompletedAt req of None \<Rightarrow> now e | Some t \<Rightarrow> t))))"
  by (simp add: Server_CompleteTodo_def Execute_def with_status_def Let_def
      split: sum.splits option.splits prod.splits)

lemma Server_DeleteTodo_Execute:
  "Server_DeleteTodo c e db req =
    (if req_TodoId req = 0 then (Inl (Error InvalidArgument ''todo_id is required''), db)
     else if req_UserId req = '''' then (Inl (Error InvalidArgument ''user_id is required''), db)
     else Execute c e db (req_IdempotencyKey req)
            (with_status (map_error ''delete'')
               (Store_DeleteTodo e db (req_TodoId req) (req_UserId req))))"
  by (simp add: Server_DeleteTodo_def Execute_def with_status_def Let_def
      split: sum.splits option.splits prod.splits)

lemma Server_EditTodo_Execute:
  "Server_EditTodo c e db req =
    (if req_TodoId req = 0 then (Inl (Error InvalidArgument ''todo_id is required''), db)
     else if req_UserId req = '''' then (Inl (Error InvalidArgument ''user_id is required''), db)
     else Execute c e db (req_IdempotencyKey req)
            (with_status (map_error ''edit'')
               (Store_EditTodo e db (req_TodoId req) (req_UserId req) (req_Title req)
                  (req_Description req))))"
  by (simp add: Server_EditTodo_def Execute_def with_status_def Let_def
      split: sum.splits option.splits prod.splits)

lemma check_idempotency_cong:
  "idempotency_keys db' = idempotency_keys db \<Longrightarrow> idem_select_err e' = idem_select_err e \<Longrightarrow>
   check_idempotency c e' db' key = check_idempotency c e db key"
  by (simp add: check_idempotency_def CheckIdempotencyKey_def)

lemma check_idempotency_no_err:
  "\<not> idem_select_err e \<Longrightarrow> check_idempotency c e db key \<noteq> Inl st"
  by (simp add: check_idempotency_def CheckIdempotencyKey_def split: option.splits prod.splits)

lemma check_idempotency_hit:
  "key \<noteq> '''' \<Longrightarrow> \<not> idem_select_err e \<Longrightarrow> idempotency_keys db key = Some (cached, ts) \<Longrightarrow>
   json_Unmarshal c cached = Some resp \<Longrightarrow> check_idempotency c e db key = Inr (Some resp)"
  by (simp add: check_idempotency_def CheckIdempotencyKey_def)

lemma Execute_hit:
  "key \<noteq> '''' \<Longrightarrow> \<not> idem_select_err e \<Longrightarrow> idempotency_keys db key = Some (cached, ts) \<Longrightarrow>
   json_Unmarshal c cached = Some resp \<Longrightarrow> Execute c e db key mutation = (Inr resp, db)"
  by (simp add: Execute_def check_idempotency_hit)

lemma check_idempotency_miss:
  assumes "check_idempotency c e db key = Inr None" "key \<noteq> ''''" "\<not> idem_select_err e"
    "\<forall>b ts. idempotency_keys db key = Some (b, ts) \<longrightarrow> json_Unmarshal c b \<noteq> None"
  shows "idempotency_keys db key = None"
  using assms
  by (auto simp: check_idempotency_def CheckIdempotencyKey_def split: option.splits)

lemma record_idempotency_stored:
  assumes "key \<noteq> ''''" "\<not> idem_insert_err e" "idempotency_keys db key = None"
    "json_Marshal c r = Some b"
  shows "record_idempotency c e db key r = db\<lparr>idempotency_keys := (idempotency_keys db)(key \<mapsto> (b, now e))\<rparr>"
  using assms by (simp add: record_idempotency_def StoreIdempotencyKey_def)

lemma record_idempotency_fields [simp]:
  "todos (record_idempotency c e db key r) = todos db"
  "todos_id_seq (record_idempotency c e db key r) = todos_id_seq db"
  "mutation_calls (record_idempotency c e db key r) = mutation_calls db"
  by (simp_all add: record_idempotency_def StoreIdempotencyKey_def split: option.splits)

lemma Execute_twice:
  assumes key: "key \<noteq> ''''"
    and sel: "\<not> idem_select_err e1" "\<not> idem_select_err e2" and ins: "\<not> idem_insert_err e1"
    and keep: "idempotency_keys (snd m1) = idempotency_keys db"
    and calls: "mutation_calls (snd m1) = Suc (mutation_calls db)"
    and decodes: "\<forall>b ts. idempotency_keys db key = Some (b, ts) \<longrightarrow> json_Unmarshal c b \<noteq> None"
    and roundtrip: "\<forall>r. fst (Execute c e1 db key m1) = Inr r \<longrightarrow>
            (\<exists>b. json_Marshal c r = Some b \<and> json_Unmarshal c b = Some r)"
    and stable: "\<And>st. fst m1 = Inl st \<Longrightarrow> fst m2 = Inl st \<and> tables (snd m2) = tables (snd m1)"
  shows "fst (Execute c e2 (snd (Execute c e1 db key m1)) key m2) = fst (Execute c e1 db key m1)
    \<and> tables (snd (Execute c e2 (snd (Execute c e1 db key m1)) key m2)) =
        tables (snd (Execute c e1 db key m1))
    \<and> mutation_calls (snd (Execute c e1 db key m1)) \<le> Suc (mutation_calls db)
    \<and> ((\<exists>r. fst (Execute c e1 db key m1) = Inr r) \<longrightarrow>
         snd (Execute c e2 (snd (Execute c e1 db key m1)) key m2) = snd (Execute c e1 db key m1))"
proof -
  from check_idempotency_cases [of c e1 db key]
  consider (err) "check_idempotency c e1 db key = Inl (Error Internal ''internal error'')"
    | (miss) "check_idempotency c e1 db key = Inr None"
    | (hit) resp where "check_idempotency c e1 db key = Inr (Some resp)"
    by blast
  then show ?thesis
  proof cases
    case err
    with check_idempotency_no_err [OF sel(1)] show ?thesis
      by blast
  next
    case hit
    then have first: "Execute c e1 db key m1 = (Inr resp, db)"
      by (simp add: Execute_def)
    have "check_idempotency c e2 db key = Inr (Some resp)"
      using hit check_idempotency_cong [of db db e2 e1 c key] sel by simp
    then have "Execute c e2 db key m2 = (Inr resp, db)"
      by (simp add: Execute_def)
    with first show ?thesis by simp
  next
    case miss
    obtain r1 db1 where m1: "m1 = (r1, db1)" by (cases m1)
    show ?thesis
    proof (cases r1)
      case (Inl st)
      then have first: "Execute c e1 db key m1 = (Inl st, db1)"
        using miss m1 by (simp add: Execute_def)
      have "check_idempotency c e2 db1 key = Inr None"
        using miss check_idempotency_cong [of db1 db e2 e1 c key] sel keep m1 by simp
      moreover have "fst m2 = Inl st" and t2: "tables (snd m2) = tables db1"
        using stable [of st] m1 Inl by simp_all
      ultimately have "Execute c e2 db1 key m2 = (Inl st, snd m2)"
        by (cases m2) (simp add: Execute_def)
      with first t2 calls m1 show ?thesis by simp
    next
      case (Inr todo)
      let ?r = "\<lparr>resp_Todo = Some (storeToProto todo)\<rparr>"
      have first: "Execute c e1 db key m1 = (Inr ?r, record_idempotency c e1 db1 key ?r)"
        using miss m1 Inr by (simp add: Execute_def)
      with roundtrip obtain b where b: "json_Marshal c ?r = Some b" "json_Unmarshal c b = Some ?r"
        by auto
      have "idempotency_keys db key = None"
        using check_idempotency_miss [OF miss key sel(1) decodes] .
      then have "idempotency_keys db1 key = None"
        using keep m1 by simp
      from record_idempotency_stored [OF key ins this b(1)]
      have "idempotency_keys (record_idempotency c e1 db1 key ?r) key = Some (b, now e1)"
        by simp
      from Execute_hit [OF key sel(2) this b(2)]
      have "Execute c e2 (record_idempotency c e1 db1 key ?r) key m2 =
          (Inr ?r, record_idempotency c e1 db1 key ?r)" .
      with first calls m1 show ?thesis by simp
    qed
  qed
qed

lemma tables_called [simp]: "tables (called db) = tables db"
  by (simp add: tables_def called_def)

lemma tables_todos: "tables db' = tables db \<Longrightarrow> todos db' = todos db"
  by (simp add: tables_def)

lemma zero_rows_outcome_todos:
  "todos db' = todos db \<Longrightarrow> zero_rows_outcome db' i u k = zero_rows_outcome db i u k"
  by (simp add: zero_rows_outcome_def)

lemma Execute_failed_tables:
  "fst m = Inl st \<Longrightarrow> tables (snd m) = tables db \<Longrightarrow> tables (snd (Execute c e db key m)) = tables db"
  by (cases m) (auto simp: Execute_def split: sum.splits option.splits)

lemma with_status_simps [simp]:
  "snd (with_status f r) = snd r"
  "(fst (with_status f r) = Inl st) = (\<exists>err. fst r = Inl err \<and> st = f err)"
  by (cases r; cases "fst r"; auto simp: with_status_def)+

lemma twice_generic:
  fixes S :: "Env \<Rightarrow> DB \<Rightarrow> (store_error + Todo) \<times> DB"
  assumes key: "key \<noteq> ''''" and nf1: "no_faults e1" and nf2: "no_faults e2"
    and decodes: "\<forall>b ts. idempotency_keys db key = Some (b, ts) \<longrightarrow> json_Unmarshal c b \<noteq> None"
    and keepS: "\<And>e db. idempotency_keys (snd (S e db)) = idempotency_keys db
                  \<and> mutation_calls (snd (S e db)) = Suc (mutation_calls db)"
    and errS: "\<And>e db err. \<not> store_faults e \<Longrightarrow> fst (S e db) = Inl err \<Longrightarrow>
            tables (snd (S e db)) = tables db
          \<and> (\<forall>e' db'. \<not> store_faults e' \<longrightarrow> todos db' = todos db \<longrightarrow>
                fst (S e' db') = Inl err \<and> tables (snd (S e' db')) = tables db')"
    and roundtrip: "\<forall>r. fst (Execute c e1 db key (with_status f (S e1 db))) = Inr r \<longrightarrow>
            (\<exists>b. json_Marshal c r = Some b \<and> json_Unmarshal c b = Some r)"
  defines "first \<equiv> Execute c e1 db key (with_status f (S e1 db))"
  defines "second \<equiv> Execute c e2 (snd first) key (with_status f (S e2 (snd first)))"
  shows "fst second = fst first \<and> tables (snd second) = tables (snd first)
    \<and> mutation_calls (snd first) \<le> Suc (mutation_calls db)
    \<and> ((\<exists>r. fst first = Inr r) \<longrightarrow> snd second = snd first)"
proof -
  have sf: "\<not> store_faults e1" "\<not> store_faults e2"
    and sel: "\<not> idem_select_err e1" "\<not> idem_select_err e2" and ins: "\<not> idem_insert_err e1"
    using nf1 nf2 by (simp_all add: no_faults_def store_faults_def)
  let ?m1 = "with_status f (S e1 db)"
  let ?m2 = "with_status f (S e2 (snd first))"
  have stable: "fst ?m2 = Inl st \<and> tables (snd ?m2) = tables (snd ?m1)" if "fst ?m1 = Inl st" for st
  proof -
    from that obtain err where err: "fst (S e1 db) = Inl err" "st = f err"
      by auto
    from errS [OF sf(1) err(1)]
    have t1: "tables (snd (S e1 db)) = tables db"
      and again: "\<And>e' db'. \<not> store_faults e' \<Longrightarrow> todos db' = todos db \<Longrightarrow>
                fst (S e' db') = Inl err \<and> tables (snd (S e' db')) = tables db'"
      by blast+
    have tf: "tables (snd first) = tables db"
      unfolding first_def using that t1 by (intro Execute_failed_tables) simp_all
    from again [OF sf(2) tables_todos [OF tf]] tf t1 err(2)
    show ?thesis by auto
  qed
  show ?thesis
    unfolding second_def first_def
    using stable unfolding first_def
    by (intro Execute_twice [OF key sel ins _ _ decodes roundtrip]) (simp_all add: keepS)
qed

lemma Store_keeps:
  "idempotency_keys (snd (Store_CreateTodo e db u ti de)) = idempotency_keys db
     \<and> mutation_calls (snd (Store_CreateTodo e db u ti de)) = Suc (mutation_calls db)"
  "idempotency_keys (snd (Store_CompleteTodo e db i u at)) = idempotency_keys db
     \<and> mutation_calls (snd (Store_CompleteTodo e db i u at)) = Suc (mutation_calls db)"
  "idempotency_keys (snd (Store_DeleteTodo e db i u)) = idempotency_keys db
     \<and> mutation_calls (snd (Store_DeleteTodo e db i u)) = Suc (mutation_calls db)"
  "idempotency_keys (snd (Store_EditTodo e db i u ti de)) = idempotency_keys db
     \<and> mutation_calls (snd (Store_EditTodo e db i u ti de)) = Suc (mutation_calls db)"
  by (simp_all add: Store_CreateTodo_def Store_CompleteTodo_def Store_DeleteTodo_def
      Store_EditTodo_def Let_def split: sum.splits)

lemma Store_CreateTodo_errS:
  "\<not> store_faults e \<Longrightarrow> fst (Store_CreateTodo e db u ti de) \<noteq> Inl err"
  by (simp add: Store_CreateTodo_def Let_def store_faults_def)

lemma Store_CompleteTodo_errS:
  assumes "\<not> store_faults e" "fst (Store_CompleteTodo e db i u a) = Inl err"
  shows "tables (snd (Store_CompleteTodo e db i u a)) = tables db
    \<and> (\<forall>e' db' a'. \<not> store_faults e' \<longrightarrow> todos db' = todos db \<longrightarrow>
          fst (Store_CompleteTodo e' db' i u a') = Inl err
        \<and> tables (snd (Store_CompleteTodo e' db' i u a')) = tables db')"
proof -
  from Store_CompleteTodo_cases [OF assms(1), of i u db a] assms(2)
  have z: "rows_affected (\<lambda>r. ID r = i \<and> UserID r = u \<and> Status r = ''active'') (todos db) = 0"
    and r: "Store_CompleteTodo e db i u a = (zero_rows_outcome db i u Inr, called db)"
    by auto
  have "fst (Store_CompleteTodo e' db' i u a') = Inl err
        \<and> tables (snd (Store_CompleteTodo e' db' i u a')) = tables db'"
    if "\<not> store_faults e'" "todos db' = todos db" for e' db' a'
    using Store_CompleteTodo_cases [OF that(1), of i u db' a'] z r assms(2) that(2)
    by (auto simp: zero_rows_outcome_todos [OF that(2)])
  with r show ?thesis by simp
qed

lemma Store_DeleteTodo_errS:
  assumes "\<not> store_faults e" "fst (Store_DeleteTodo e db i u) = Inl err"
  shows "tables (snd (Store_DeleteTodo e db i u)) = tables db
    \<and> (\<forall>e' db'. \<not> store_faults e' \<longrightarrow> todos db' = todos db \<longrightarrow>
          fst (Store_DeleteTodo e' db' i u) = Inl err
        \<and> tables (snd (Store_DeleteTodo e' db' i u)) = tables db')"
proof -
  from Store_DeleteTodo_cases [OF assms(1), of i u db] assms(2)
  have z: "rows_affected (\<lambda>r. ID r = i \<and> UserID r = u \<and> Status r \<noteq> ''deleted'') (todos db) = 0"
    and r: "Store_DeleteTodo e db i u = (zero_rows_outcome db i u Inr, called db)"
    by auto
  have "fst (Store_DeleteTodo e' db' i u) = Inl err
        \<and> tables (snd (Store_DeleteTodo e' db' i u)) = tables db'"
    if "\<not> store_faults e'" "todos db' = todos db" for e' db'
    using Store_DeleteTodo_cases [OF that(1), of i u db'] z r assms(2) that(2)
    by (auto simp: zero_rows_outcome_todos [OF that(2)])
  with r show ?thesis by simp
qed

lemma Store_EditTodo_errS:
  assumes "\<not> store_faults e" "fst (Store_EditTodo e db i u ti de) = Inl err"
  shows "tables (snd (Store_EditTodo e db i u ti de)) = tables db
    \<and> (\<forall>e' db'. \<not> store_faults e' \<longrightarrow> todos db' = todos db \<longrightarrow>
          fst (Store_EditTodo e' db' i u ti de) = Inl err
        \<and> tables (snd (Store_EditTodo e' db' i u ti de)) = tables db')"
proof -
  from Store_EditTodo_cases [OF assms(1), of i u db ti de] assms(2)
  have z: "rows_affected (\<lambda>r. ID r = i \<and> UserID r = u \<and> Status r \<noteq> ''deleted'') (todos db) = 0"
    and r: "Store_EditTodo e db i u ti de =
              (zero_rows_outcome db i u (\<lambda>t. Inl ErrNotFound), called db)"
    by auto
  have "fst (Store_EditTodo e' db' i u ti de) = Inl err
        \<and> tables (snd (Store_EditTodo e' db' i u ti de)) = tables db'"
    if "\<not> store_faults e'" "todos db' = todos db" for e' db'
    using Store_EditTodo_cases [OF that(1), of i u db' ti de] z r assms(2) that(2)
    by (auto simp: zero_rows_outcome_todos [OF that(2)])
  with r show ?thesis by simp
qed

lemma Server_call_valid:
  "validates m req \<Longrightarrow>
   Server_call m c e db req =
     Execute c e db (req_IdempotencyKey req) (with_status (store_status m) (Store_call m e db req))"
  by (cases m)
    (simp_all add: Server_call_def validates_def Store_call_def store_status_def
      Server_CreateTodo_Execute Server_CompleteTodo_Execute Server_DeleteTodo_Execute
      Server_EditTodo_Execute)

lemma Server_call_invalid:
  "\<not> validates m req \<Longrightarrow>
   \<exists>msg. \<forall>c e db. Server_call m c e db req = (Inl (Error InvalidArgument msg), db)"
  by (cases m; cases "req_UserId req = []"; cases "req_TodoId req = 0")
    (simp_all add: Server_call_def validates_def Server_CreateTodo_def Server_CompleteTodo_def
      Server_DeleteTodo_def Server_EditTodo_def)

lemma Store_call_keeps:
  "idempotency_keys (snd (Store_call m e db req)) = idempotency_keys db
     \<and> mutation_calls (snd (Store_call m e db req)) = Suc (mutation_calls db)"
  by (cases m) (simp_all only: Store_call_def rpc.case Store_keeps simp_thms)

lemma Store_call_errS:
  assumes "\<not> store_faults e" "fst (Store_call m e db req) = Inl err"
  shows "tables (snd (Store_call m e db req)) = tables db
    \<and> (\<forall>e' db'. \<not> store_faults e' \<longrightarrow> todos db' = todos db \<longrightarrow>
          fst (Store_call m e' db' req) = Inl err
        \<and> tables (snd (Store_call m e' db' req)) = tables db')"
proof (cases m)
  case CreateTodo
  with assms Store_CreateTodo_errS show ?thesis
    by (simp add: Store_call_def)
next
  case CompleteTodo
  with assms Store_CompleteTodo_errS [of e db "req_TodoId req" "req_UserId req" _ err]
  show ?thesis
    by (simp add: Store_call_def)
next
  case DeleteTodo
  with assms Store_DeleteTodo_errS [of e db "req_TodoId req" "req_UserId req" err]
  show ?thesis
    by (simp add: Store_call_def)
next
  case EditTodo
  with assms Store_EditTodo_errS [of e db "req_TodoId req" "req_UserId req" _ _ err]
  show ?thesis
    by (simp add: Store_call_def)
qed

lemma not_isl_iff: "(\<not> isl x) = (\<exists>r. x = Inr r)"
  by (cases x) simp_all

lemma Server_call_twice:
  assumes "req_IdempotencyKey req \<noteq> ''''" "no_faults e1" "no_faults e2"
    and "\<forall>b ts. idempotency_keys db (req_IdempotencyKey req) = Some (b, ts) \<longrightarrow> json_Unmarshal c b \<noteq> None"
    and "\<forall>r. fst (Server_call m c e1 db req) = Inr r \<longrightarrow>
            (\<exists>b. json_Marshal c r = Some b \<and> json_Unmarshal c b = Some r)"
  shows "dispatched_twice m c req e1 e2 db"
proof (cases "validates m req")
  case False
  from Server_call_invalid [OF False]
  obtain msg where "\<And>e db. Server_call m c e db req = (Inl (Error InvalidArgument msg), db)"
    by blast
  then show ?thesis
    by (simp add: dispatched_twice_def)
next
  case True
  define S where "S = (\<lambda>e db. Store_call m e db req)"
  have srv: "Server_call m c e db req =
      Execute c e db (req_IdempotencyKey req) (with_status (store_status m) (S e db))" for e db
    using True by (simp add: Server_call_valid S_def)
  have keepS: "idempotency_keys (snd (S e db)) = idempotency_keys db
                  \<and> mutation_calls (snd (S e db)) = Suc (mutation_calls db)" for e db
    unfolding S_def by (rule Store_call_keeps)
  have errS: "tables (snd (S e db)) = tables db
          \<and> (\<forall>e' db'. \<not> store_faults e' \<longrightarrow> todos db' = todos db \<longrightarrow>
                fst (S e' db') = Inl err \<and> tables (snd (S e' db')) = tables db')"
    if "\<not> store_faults e" "fst (S e db) = Inl err" for e db err
    using Store_call_errS [OF that(1) that(2) [unfolded S_def]]
    unfolding S_def .
  have rt: "\<forall>r. fst (Execute c e1 db (req_IdempotencyKey req)
                (with_status (store_status m) (S e1 db))) = Inr r \<longrightarrow>
            (\<exists>b. json_Marshal c r = Some b \<and> json_Unmarshal c b = Some r)"
    using assms(5) unfolding srv .
  from twice_generic [OF assms(1-4) keepS errS rt]
  show ?thesis
    unfolding dispatched_twice_def Let_def srv not_isl_iff by blast
qed

lemma ex_first: "Server_CreateTodo ex_json ex_env ex_empty ex_create = (Inr (ex_response 1), ex_created)"
  by (simp add: Server_CreateTodo_def check_idempotency_def CheckIdempotencyKey_def
      Store_CreateTodo_def record_idempotency_def StoreIdempotencyKey_def Let_def
      ex_json_def ex_env_def ex_empty_def ex_create_def ex_created_def ex_response_def ex_todo_def)

text \<open>
  Claim C1, as amended.  Let the request carry a non-empty idempotency key.

  (a) If the request passes validation, the lookup of the key succeeds, and the record
  found unmarshals to \<open>resp\<close>, each of the four methods returns \<open>resp\<close> and the database
  is left exactly as it was, ghost counter included: the store's mutating method is
  not called.

  (b) If the driver reports no error during either of two successive dispatches of the
  request, a record already stored under the key unmarshals, and a successful first
  response survives marshalling and unmarshalling, then the second dispatch returns
  what the first returned and changes no table; the first dispatch calls the store's
  mutating method at most once, and after a successful first response the second
  dispatch calls it not at all.
\<close>

theorem idempotent_replay:
  assumes "req_IdempotencyKey req \<noteq> ''''"
  shows
    "(validates m req \<and> \<not> idem_select_err e
        \<and> idempotency_keys db (req_IdempotencyKey req) = Some (cached, ts)
        \<and> json_Unmarshal c cached = Some resp \<longrightarrow>
      Server_call m c e db req = (Inr resp, db))
   \<and> (no_faults e1 \<and> no_faults e2
        \<and> (\<forall>b ts. idempotency_keys db (req_IdempotencyKey req) = Some (b, ts) \<longrightarrow>
               json_Unmarshal c b \<noteq> None)
        \<and> (\<forall>r. fst (Server_call m c e1 db req) = Inr r \<longrightarrow>
               (\<exists>b. json_Marshal c r = Some b \<and> json_Unmarshal c b = Some r)) \<longrightarrow>
      dispatched_twice m c req e1 e2 db)"
proof (intro conjI impI)
  assume "validates m req \<and> \<not> idem_select_err e
        \<and> idempotency_keys db (req_IdempotencyKey req) = Some (cached, ts)
        \<and> json_Unmarshal c cached = Some resp"
  then show "Server_call m c e db req = (Inr resp, db)"
    using assms by (simp add: Server_call_valid Execute_hit)
next
  assume "no_faults e1 \<and> no_faults e2
        \<and> (\<forall>b ts. idempotency_keys db (req_IdempotencyKey req) = Some (b, ts) \<longrightarrow>
               json_Unmarshal c b \<noteq> None)
        \<and> (\<forall>r. fst (Server_call m c e1 db req) = Inr r \<longrightarrow>
               (\<exists>b. json_Marshal c r = Some b \<and> json_Unmarshal c b = Some r))"
  then show "dispatched_twice m c req e1 e2 db"
    using Server_call_twice [OF assms, of e1 e2 db c m] by blast
qed

text \<open>
  Creating ``buy milk'' on the empty database, and the same request against the
  database the first dispatch leaves behind.
\<close>

theorem idempotent_replay_witness:
  "Server_call CreateTodo ex_json ex_env ex_empty ex_create = (Inr (ex_response 1), ex_created)
   \<and> Server_call CreateTodo ex_json ex_env ex_created ex_create = (Inr (ex_response 1), ex_created)
   \<and> dispatched_twice CreateTodo ex_json ex_create ex_env ex_env ex_empty"
proof -
  have first: "Server_call CreateTodo ex_json ex_env ex_empty ex_create =
      (Inr (ex_response 1), ex_created)"
    by (simp add: Server_call_def ex_first)
  have key: "req_IdempotencyKey ex_create \<noteq> ''''"
    by (simp add: ex_create_def)
  have valid: "validates CreateTodo ex_create"
    by (simp add: validates_def ex_create_def)
  have nf: "no_faults ex_env" "\<not> idem_select_err ex_env"
    by (simp_all add: no_faults_def ex_env_def)
  have hit: "idempotency_keys ex_created (req_IdempotencyKey ex_create) = Some (''{1}'', 200)"
    "json_Unmarshal ex_json ''{1}'' = Some (ex_response 1)"
    by (simp_all add: ex_created_def ex_create_def ex_json_def)
  have miss: "\<forall>b ts. idempotency_keys ex_empty (req_IdempotencyKey ex_create) = Some (b, ts) \<longrightarrow>
               json_Unmarshal ex_json b \<noteq> None"
    by (simp add: ex_empty_def)
  have rt: "\<forall>r. fst (Server_call CreateTodo ex_json ex_env ex_empty ex_create) = Inr r \<longrightarrow>
               (\<exists>b. json_Marshal ex_json r = Some b \<and> json_Unmarshal ex_json b = Some r)"
    by (simp add: first) (simp add: ex_json_def)
  from idempotent_replay [OF key, where m = CreateTodo and c = ex_json and e = ex_env
      and cached = "''{1}''" and ts = 200 and resp = "ex_response 1" and db = ex_created]
    valid nf hit
  have a: "Server_call CreateTodo ex_json ex_env ex_created ex_create =
      (Inr (ex_response 1), ex_created)"
    by blast
  from idempotent_replay [OF key, where m = CreateTodo and c = ex_json
      and ?e1.0 = ex_env and ?e2.0 = ex_env and db = ex_empty]
    nf miss rt
  have b: "dispatched_twice CreateTodo ex_json ex_create ex_env ex_env ex_empty"
    by blast
  from first a b show ?thesis
    by blast
qed

text \<open>
  Claim C1 as stated fails when the write of the key record returns an error: nothing
  crashes, the first response is a success, and the second dispatch of the same
  request creates a second todo and answers with it.
\<close>

theorem lost_key_record_counterexample:
  "fst (Server_CreateTodo ex_json (ex_env\<lparr>idem_insert_err := True\<rparr>) ex_empty ex_create) =
     Inr (ex_response 1)
   \<and> fst (Server_CreateTodo ex_json ex_env
        (snd (Server_CreateTodo ex_json (ex_env\<lparr>idem_insert_err := True\<rparr>) ex_empty ex_create))
        ex_create) = Inr (ex_response 2)
   \<and> ex_response 2 \<noteq> ex_response 1
   \<and> todos (snd (Server_CreateTodo ex_json ex_env
        (snd (Server_CreateTodo ex_json (ex_env\<lparr>idem_insert_err := True\<rparr>) ex_empty ex_create))
        ex_create)) = [ex_todo 1, ex_todo 2]
   \<and> mutation_calls (snd (Server_CreateTodo ex_json ex_env
        (snd (Server_CreateTodo ex_json (ex_env\<lparr>idem_insert_err := True\<rparr>) ex_empty ex_create))
        ex_create)) = 2"
  by (simp add: Server_CreateTodo_def check_idempotency_def CheckIdempotencyKey_def
      Store_CreateTodo_def record_idempotency_def StoreIdempotencyKey_def Let_def
      ex_json_def ex_env_def ex_empty_def ex_create_def ex_response_def ex_todo_def
      storeToProto_def)

lemma StoreIdempotencyKey_failed:
  "fst (StoreIdempotencyKey c e db key r) = Some err \<Longrightarrow> snd (StoreIdempotencyKey c e db key r) = db"
  by (simp add: StoreIdempotencyKey_def split: option.splits if_splits)

lemma check_idempotency_absent:
  "\<not> idem_select_err e \<Longrightarrow> idempotency_keys db key = None \<Longrightarrow> check_idempotency c e db key = Inr None"
  by (simp add: check_idempotency_def CheckIdempotencyKey_def)

lemma Execute_calls:
  assumes "check_idempotency c e db key = Inr None"
    "mutation_calls (snd mutation) = Suc (mutation_calls db)"
  shows "mutation_calls (snd (Execute c e db key mutation)) = Suc (mutation_calls db)"
  using assms by (cases mutation) (simp add: Execute_def split: sum.splits)

text \<open>
  Claim C10.  Let a valid request with a non-empty key find no record, let the store's
  mutating method succeed with \<open>todo\<close>, and let \<^verbatim>\<open>StoreIdempotencyKey\<close> return an error.
  The method still returns the successful response, and the database is the one the
  mutation left: no record under the key.  A later dispatch of the request whose lookup
  succeeds calls the mutating method again; for \<^verbatim>\<open>CreateTodo\<close> it inserts one more row.
\<close>

theorem key_write_failure_reexecutes:
  assumes "validates m req" and "req_IdempotencyKey req \<noteq> ''''"
    and "\<not> idem_select_err e1"
    and "idempotency_keys db (req_IdempotencyKey req) = None"
    and "Store_call m e1 db req = (Inr todo, db1)"
    and "fst (StoreIdempotencyKey c e1 db1 (req_IdempotencyKey req)
               \<lparr>resp_Todo = Some (storeToProto todo)\<rparr>) = Some err"
  shows
    "Server_call m c e1 db req = (Inr \<lparr>resp_Todo = Some (storeToProto todo)\<rparr>, db1)
   \<and> idempotency_keys db1 (req_IdempotencyKey req) = None
   \<and> mutation_calls db1 = Suc (mutation_calls db)
   \<and> (\<not> idem_select_err e2 \<longrightarrow>
        mutation_calls (snd (Server_call m c e2 db1 req)) = Suc (Suc (mutation_calls db)))
   \<and> (\<not> idem_select_err e2 \<and> \<not> exec_err e2 \<and> m = CreateTodo \<longrightarrow>
        length (todos (snd (Server_call m c e2 db1 req))) = Suc (length (todos db1)))"
proof -
  let ?key = "req_IdempotencyKey req"
  let ?r = "\<lparr>resp_Todo = Some (storeToProto todo)\<rparr>"
  have miss: "check_idempotency c e1 db ?key = Inr None"
    using assms(3,4) by (rule check_idempotency_absent)
  have "record_idempotency c e1 db1 ?key ?r = db1"
    using StoreIdempotencyKey_failed [OF assms(6)] assms(2) by (simp add: record_idempotency_def)
  then have first: "Server_call m c e1 db req = (Inr ?r, db1)"
    using miss assms(5) by (simp add: Server_call_valid [OF assms(1)] Execute_def with_status_def)
  from Store_call_keeps [of m e1 db req] assms(4,5)
  have none: "idempotency_keys db1 ?key = None" and calls: "mutation_calls db1 = Suc (mutation_calls db)"
    by simp_all
  have again: "mutation_calls (snd (Server_call m c e2 db1 req)) = Suc (Suc (mutation_calls db))"
    if "\<not> idem_select_err e2"
  proof -
    have "check_idempotency c e2 db1 ?key = Inr None"
      using that none by (rule check_idempotency_absent)
    from Execute_calls [OF this, of "with_status (store_status m) (Store_call m e2 db1 req)"]
    show ?thesis
      using calls by (simp add: Server_call_valid [OF assms(1)] Store_call_keeps)
  qed
  have dup: "length (todos (snd (Server_call m c e2 db1 req))) = Suc (length (todos db1))"
    if "\<not> idem_select_err e2" "\<not> exec_err e2" "m = CreateTodo"
  proof -
    have "check_idempotency c e2 db1 ?key = Inr None"
      using that(1) none by (rule check_idempotency_absent)
    then show ?thesis
      using that(2,3) assms(1)
      by (simp add: Server_call_def Server_CreateTodo_def Store_CreateTodo_def Let_def validates_def)
  qed
  from first none calls again dup show ?thesis
    by blast
qed

text \<open>The failed insert of the key record on the empty database, and the redelivery.\<close>

theorem key_write_failure_reexecutes_witness:
  "Server_call CreateTodo ex_json (ex_env\<lparr>idem_insert_err := True\<rparr>) ex_empty ex_create =
     (Inr (ex_response 1), ex_created\<lparr>idempotency_keys := Map.empty\<rparr>)
   \<and> mutation_calls (snd (Server_call CreateTodo ex_json ex_env
        (ex_created\<lparr>idempotency_keys := Map.empty\<rparr>) ex_create)) = 2
   \<and> length (todos (snd (Server_call CreateTodo ex_json ex_env
        (ex_created\<lparr>idempotency_keys := Map.empty\<rparr>) ex_create))) = 2"
proof -
  have s: "Store_call CreateTodo (ex_env\<lparr>idem_insert_err := True\<rparr>) ex_empty ex_create =
      (Inr (ex_todo 1), ex_created\<lparr>idempotency_keys := Map.empty\<rparr>)"
    by (simp add: Store_call_def Store_CreateTodo_def Let_def ex_env_def ex_empty_def
        ex_create_def ex_created_def ex_todo_def)
  have w: "fst (StoreIdempotencyKey ex_json (ex_env\<lparr>idem_insert_err := True\<rparr>)
      (ex_created\<lparr>idempotency_keys := Map.empty\<rparr>) (req_IdempotencyKey ex_create)
      \<lparr>resp_Todo = Some (storeToProto (ex_todo 1))\<rparr>) = Some ErrOther"
    by (simp add: StoreIdempotencyKey_def ex_json_def split: option.splits)
  from key_write_failure_reexecutes [where m = CreateTodo and req = ex_create
      and ?e1.0 = "ex_env\<lparr>idem_insert_err := True\<rparr>" and db = ex_empty and c = ex_json
      and ?e2.0 = ex_env, OF _ _ _ _ s w]
  show ?thesis
    by (simp add: validates_def ex_create_def ex_env_def ex_empty_def ex_created_def
        ex_response_def)
qed

section \<open>Classification of inbound events\<close>

text \<open>
  Claim C5.  A validated event with a media URL, a media count that is neither empty
  nor \<^verbatim>\<open>"0"\<close>, and a non-empty body: when the publish succeeds, the audio queue gains
  exactly one envelope, made of the sender, the media URL, the message id and the key
  (the body appears nowhere in it); when the publish fails the answer is 500 and the
  queues are as before.  In both cases the text queue is unchanged.
\<close>

theorem media_takes_precedence:
  assumes "validated h r"
    and "NumMedia r \<noteq> ''''" and "NumMedia r \<noteq> ''0''" and "MediaUrl0 r \<noteq> ''''"
    and "Body r \<noteq> ''''"
  shows
    "(\<not> publish_fails \<longrightarrow>
       HandleSMS Sum256 h publish_fails q r =
         (emptyTwiML,
          q\<lparr>audio_processing := audio_processing q @
              [\<lparr>audio_UserID = From r, audio_MediaURL = MediaUrl0 r,
                audio_MessageSid = MessageSid r,
                audio_IdempotencyKey = GenerateKey Sum256 (MessageSid r)\<rparr>]\<rparr>))
   \<and> (publish_fails \<longrightarrow>
       HandleSMS Sum256 h publish_fails q r = (http_Error ''Internal server error'' 500, q))
   \<and> text_commands (snd (HandleSMS Sum256 h publish_fails q r)) = text_commands q"
  using assms
  by (auto simp: HandleSMS_def validated_def handleAudioMessage_def PublishAudio_def Let_def)

text \<open>The request of \<^verbatim>\<open>TestHandleSMS_MediaMessage_WithBodyPrefersMedia\<close>.\<close>

theorem media_takes_precedence_witness:
  "HandleSMS ex_digest ex_handler False ex_queues
     (ex_sms ''some text'' ''1'' ''https://api.twilio.com/media/ME123'') =
   (emptyTwiML,
    \<lparr>audio_processing =
       [\<lparr>audio_UserID = ''+15551234567'',
         audio_MediaURL = ''https://api.twilio.com/media/ME123'',
         audio_MessageSid = ''SM123'',
         audio_IdempotencyKey = GenerateKey ex_digest ''SM123''\<rparr>],
     text_commands = []\<rparr>)"
  using media_takes_precedence [of ex_handler
      "ex_sms ''some text'' ''1'' ''https://api.twilio.com/media/ME123''" False ex_digest ex_queues]
  by (simp add: validated_def ex_sms_def ex_handler_def ex_queues_def)

text \<open>
  Claim C4 at a body of three spaces and no media: the handler answers 200 and
  publishes a text envelope whose command text is empty.  The check \<^verbatim>\<open>body != ""\<close>
  precedes the \<^verbatim>\<open>strings.TrimSpace\<close> in \<^verbatim>\<open>handleTextMessage\<close>.
\<close>

theorem whitespace_body_is_enqueued:
  "HandleSMS Sum256 ex_handler False ex_queues (ex_sms ''   '' '''' '''') =
   (emptyTwiML,
    \<lparr>audio_processing = [],
     text_commands =
       [\<lparr>text_UserID = ''+15551234567'', text_CommandText = '''',
         text_MessageSid = ''SM123'',
         text_IdempotencyKey = GenerateKey Sum256 ''SM123''\<rparr>]\<rparr>)"
  by (simp add: HandleSMS_def handleTextMessage_def PublishText_def TrimSpace_def isSpace_def
      Let_def ex_sms_def ex_handler_def ex_queues_def)

text \<open>The part of C4 that holds: without media, the empty body is rejected and nothing is published.\<close>

lemma empty_body_is_rejected:
  assumes "validated h r" and "NumMedia r = '''' \<or> NumMedia r = ''0'' \<or> MediaUrl0 r = ''''"
    and "Body r = ''''"
  shows "HandleSMS Sum256 h publish_fails q r = (http_Error ''Empty message'' 400, q)"
  using assms by (auto simp: HandleSMS_def validated_def Let_def)

section \<open>The shape of the idempotency key\<close>

lemma hextable_digits: "map ((!) hextable) [0 ..< 16] = map hex_digit [0 ..< 16]"
  by code_simp

lemma hextable_nth: "n < 16 \<Longrightarrow> hextable ! n = hex_digit n"
  using hextable_digits by simp

lemma high_nibble: "unat (drop_bit 4 (v :: 8 word)) = unat v div 16"
  by (simp add: drop_bit_eq_div unat_div)

lemma low_nibble: "unat ((v :: 8 word) AND 0x0f) = unat v mod 16"
proof -
  have "(0x0f :: 8 word) = mask 4"
    by (simp add: mask_eq_exp_minus_1)
  then have "v AND 0x0f = take_bit 4 v"
    by (simp add: take_bit_eq_mask)
  then show ?thesis
    by (simp add: take_bit_eq_mod unat_mod)
qed

lemma byte_div_16: "unat (v :: 8 word) div 16 < 16"
proof -
  have "unat v < 256"
    using unsigned_less [of v] by simp
  then show ?thesis by arith
qed

lemma EncodeToString_hex_of: "EncodeToString bs = hex_of bs"
  by (induction bs)
    (simp_all add: hex_of_def high_nibble low_nibble hextable_nth byte_div_16)

lemma of_char_hex_digit:
  "n < 16 \<Longrightarrow> of_char (hex_digit n) = (if n < 10 then 48 + n else 87 + n)"
  by (simp add: hex_digit_def)

lemma hex_digit_inj: "m < 16 \<Longrightarrow> n < 16 \<Longrightarrow> hex_digit m = hex_digit n \<Longrightarrow> m = n"
proof -
  assume m: "m < 16" and n: "n < 16" and eq: "hex_digit m = hex_digit n"
  then have "(of_char (hex_digit m) :: nat) = of_char (hex_digit n)"
    by simp
  with m n show ?thesis
    by (simp add: of_char_hex_digit split: if_splits)
qed

lemma hex_pair_inj:
  assumes "hex_digit (unat (a :: 8 word) div 16) = hex_digit (unat (b :: 8 word) div 16)"
    and "hex_digit (unat a mod 16) = hex_digit (unat b mod 16)"
  shows "a = b"
proof -
  have "unat a div 16 = unat b div 16"
    using assms(1) by (intro hex_digit_inj byte_div_16)
  moreover have "unat a mod 16 = unat b mod 16"
    using assms(2) by (intro hex_digit_inj) simp_all
  ultimately have "unat a = unat b"
    by (metis div_mult_mod_eq)
  then show ?thesis
    by (simp add: word_unat_eq_iff)
qed

lemma hex_of_inj: "hex_of bs = hex_of cs \<Longrightarrow> bs = cs"
proof (induction bs arbitrary: cs)
  case Nil
  then show ?case
    by (cases cs) (simp_all add: hex_of_def)
next
  case (Cons b bs)
  then obtain c cs' where cs: "cs = c # cs'"
    by (cases cs) (simp_all add: hex_of_def)
  with Cons.prems have "b = c" and "hex_of bs = hex_of cs'"
    by (simp_all add: hex_of_def hex_pair_inj)
  with Cons.IH cs show ?case
    by simp
qed

lemma hex_of_length: "length (hex_of bs) = 2 * length bs"
  by (induction bs) (simp_all add: hex_of_def)

lemma hex_digit_in_table: "n < 16 \<Longrightarrow> hex_digit n \<in> set ''0123456789abcdef''"
  using hextable_nth [of n] nth_mem [of n hextable]
  by (simp add: hextable_def)

lemma hex_of_alphabet: "set (hex_of bs) \<subseteq> set ''0123456789abcdef''"
proof (induction bs)
  case Nil
  then show ?case by (simp add: hex_of_def)
next
  case (Cons b bs)
  have "hex_digit (unat b div 16) \<in> set ''0123456789abcdef''"
    by (intro hex_digit_in_table byte_div_16)
  moreover have "hex_digit (unat b mod 16) \<in> set ''0123456789abcdef''"
    by (intro hex_digit_in_table) simp
  ultimately show ?case
    using Cons by (simp add: hex_of_def)
qed

text \<open>
  Claim C7.  \<^verbatim>\<open>GenerateKey\<close> has no state to read: its result is a function of the source
  string and of the digest function alone.  The key is \<^verbatim>\<open>"idem_"\<close> followed by the
  hexadecimal notation of the first 16 bytes of the digest, hence 37 characters for a
  digest of 32 bytes, all but the prefix lower-case hexadecimal digits; and two sources
  get the same key exactly when the first 16 bytes of their digests agree.
\<close>

theorem GenerateKey_is_prefixed_hex_digest:
  "GenerateKey Sum256 s = ''idem_'' @ hex_of (take 16 (Sum256 s))
   \<and> length (GenerateKey Sum256 s) = 5 + 2 * min 16 (length (Sum256 s))
   \<and> set (drop 5 (GenerateKey Sum256 s)) \<subseteq> set ''0123456789abcdef''
   \<and> (GenerateKey Sum256 s = GenerateKey Sum256 s') =
       (take 16 (Sum256 s) = take 16 (Sum256 s'))"
  using hex_of_inj [of "take 16 (Sum256 s)" "take 16 (Sum256 s')"]
    hex_of_alphabet [of "take 16 (Sum256 s)"]
  by (auto simp: GenerateKey_def EncodeToString_hex_of hex_of_length)

lemma ex_digest_SM1: "hex_of (take 16 (ex_digest ''SM1'')) = ''5364758697a8b9cadbecfd0e1f304152''"
  by code_simp

text \<open>The key of \<^verbatim>\<open>"SM1"\<close> under the stand-in digest.\<close>

theorem GenerateKey_is_prefixed_hex_digest_witness:
  "GenerateKey ex_digest ''SM1'' = ''idem_5364758697a8b9cadbecfd0e1f304152''
   \<and> length (GenerateKey ex_digest ''SM1'') = 37"
  using GenerateKey_is_prefixed_hex_digest [of ex_digest "''SM1''" "''SM1''"] ex_digest_SM1
  by (simp add: ex_digest_def)

section \<open>Acknowledgements of the consumer\<close>

lemma Start_loop_acks: "map fst (acks (Start_loop unmarshal handler evs w)) = delivered evs"
  by (induction unmarshal handler evs w rule: Start_loop.induct)
    (simp_all add: Let_def split: option.splits prod.splits bool.splits)

lemma Start_loop_calls:
  "map fst (calls (Start_loop unmarshal handler evs w)) = List.map_filter unmarshal (delivered evs)"
  by (induction unmarshal handler evs w rule: Start_loop.induct)
    (simp_all add: Let_def map_filter_simps split: option.splits prod.splits bool.splits)

lemma Start_loop_malformed:
  "(b, a) \<in> set (acks (Start_loop unmarshal handler evs w)) \<Longrightarrow>
   (unmarshal b = None) = (a = Nack False)"
  by (induction unmarshal handler evs w rule: Start_loop.induct)
    (auto simp: Let_def split: option.splits prod.splits bool.splits)

lemma Start_loop_handled:
  "List.map_filter (\<lambda>(b, a). map_option (\<lambda>msg. (msg, a)) (unmarshal b))
     (acks (Start_loop unmarshal handler evs w)) =
   map (\<lambda>(msg, failed). (msg, expected_ack failed)) (calls (Start_loop unmarshal handler evs w))"
  by (induction unmarshal handler evs w rule: Start_loop.induct)
    (simp_all add: Let_def map_filter_simps expected_ack_def
      split: option.splits prod.splits bool.splits)

text \<open>
  Claim C6.  In every run of \<^verbatim>\<open>Start\<close>: the acknowledgements are, in order, one for
  each delivery received; the handler is called, in order, once for each delivery whose
  body unmarshals and for no other; a delivery is rejected without requeue exactly when
  its body does not unmarshal; and the deliveries that unmarshal carry, in order, the
  acknowledgements that answer the handler's calls: reject with requeue where the
  handler returned an error, acknowledge where it did not.
\<close>

theorem one_acknowledgement_per_delivery:
  "map fst (acks (Start False unmarshal handler evs w)) = delivered evs
   \<and> map fst (calls (Start False unmarshal handler evs w)) =
       List.map_filter unmarshal (delivered evs)
   \<and> (\<forall>(body, a) \<in> set (acks (Start False unmarshal handler evs w)).
         (unmarshal body = None) = (a = Nack False))
   \<and> List.map_filter (\<lambda>(body, a). map_option (\<lambda>msg. (msg, a)) (unmarshal body))
         (acks (Start False unmarshal handler evs w)) =
       map (\<lambda>(msg, failed). (msg, if failed then Nack True else Ack))
         (calls (Start False unmarshal handler evs w))"
  using Start_loop_acks [of unmarshal handler evs w]
    Start_loop_calls [of unmarshal handler evs w]
    Start_loop_malformed [of _ _ unmarshal handler evs w]
    Start_loop_handled [of unmarshal handler evs w]
  by (auto simp: Start_def expected_ack_def)

text \<open>
  A malformed body, a message the handler fails on and one it handles, then the
  cancellation: the delivery after it is not taken.
\<close>

theorem one_acknowledgement_per_delivery_witness:
  "acks (Start False ex_unmarshal ex_handle ex_events 0) =
     [(''not json'', Nack False), (''fail'', Nack True), (''buy milk'', Ack)]
   \<and> map (text_CommandText \<circ> fst) (calls (Start False ex_unmarshal ex_handle ex_events 0)) =
     [''fail'', ''buy milk'']
   \<and> world (Start False ex_unmarshal ex_handle ex_events 0) = 2
   \<and> exit_with (Start False ex_unmarshal ex_handle ex_events 0) = CtxErr"
  using one_acknowledgement_per_delivery [of ex_unmarshal ex_handle ex_events 0]
  by (simp add: Start_def ex_events_def ex_unmarshal_def ex_handle_def)

section \<open>The search by title\<close>

lemma cafe_matches: "containsIgnoreCase (''caf'' @ [CHR 0xC3, CHR 0xA9]) [CHR 0xC3, CHR 0xA8]"
  by code_simp

lemma cafe_does_not_contain: "\<not> ci_substring [CHR 0xC3, CHR 0xA8] (''caf'' @ [CHR 0xC3, CHR 0xA9])"
  by (simp add: same_letter_def)

text \<open>
  Claim C9 at an accented hint.  The caller's only active todo is titled ``cafe'' with
  an acute accent on the e (bytes \<^verbatim>\<open>C3 A9\<close>) and the hint is an e with a grave accent
  (bytes \<^verbatim>\<open>C3 A8\<close>), which the title does not contain in either case.  \<^verbatim>\<open>toLower\<close>
  leaves a zero byte in place of the second byte of each two-byte letter, so both
  accented letters become \<^verbatim>\<open>C3 00\<close>, and \<^verbatim>\<open>FindTodoByTitle\<close> returns the todo.
\<close>

theorem accented_hint_matches_other_title:
  "FindTodoByTitle ex_env ex_cafe_db ''+15551234567'' [CHR 0xC3, CHR 0xA8] =
     Inr (Some (storeToProto ex_cafe))
   \<and> pb_Title (storeToProto ex_cafe) = ''caf'' @ [CHR 0xC3, CHR 0xA9]
   \<and> toLower (''caf'' @ [CHR 0xC3, CHR 0xA9]) = ''caf'' @ [CHR 0xC3, CHR 0x00]
   \<and> toLower [CHR 0xC3, CHR 0xA8] = [CHR 0xC3, CHR 0x00]
   \<and> \<not> ci_substring [CHR 0xC3, CHR 0xA8] (''caf'' @ [CHR 0xC3, CHR 0xA9])"
proof -
  have t1: "toLower (''caf'' @ [CHR 0xC3, CHR 0xA9]) = ''caf'' @ [CHR 0xC3, CHR 0x00]"
    by code_simp
  have t2: "toLower [CHR 0xC3, CHR 0xA8] = [CHR 0xC3, CHR 0x00]"
    by code_simp
  have "Client_ListTodos ex_env ex_cafe_db ''+15551234567'' TODO_STATUS_ACTIVE =
      Inr [storeToProto ex_cafe]"
    by (simp add: Client_ListTodos_def Server_ListTodos_def Store_ListTodos_def ex_env_def
        ex_cafe_db_def ex_cafe_def)
  moreover have "pb_Title (storeToProto ex_cafe) = ''caf'' @ [CHR 0xC3, CHR 0xA9]"
    by (simp add: storeToProto_def ex_cafe_def)
  ultimately show ?thesis
    using cafe_matches cafe_does_not_contain t1 t2
    by (simp add: FindTodoByTitle_def)
qed

lemma rune_width_ascii: "(of_char c :: nat) < 128 \<Longrightarrow> rune_width (c # rest) = 1"
  by (simp add: rune_width_def)

lemma toLower_ascii: "ascii s \<Longrightarrow> toLower s = map fold_letter s"
  by (induction s) (simp_all add: ascii_def rune_width_ascii fold_letter_def Let_def)

lemma fold_letter_eq: "(fold_letter c = fold_letter d) = same_letter c d"
proof -
  have *: "(char_of (m + 32 :: nat) = char_of (n + 32 :: nat)) = (m = n)" if "m \<le> 90" "n \<le> 90" for m n
    using that by (simp add: char_of_eq_iff take_bit_eq_mod)
  have **: "(char_of (m + 32 :: nat) = d') = (of_char d' = m + 32)" if "m \<le> 90" for m d'
  proof
    assume "char_of (m + 32) = d'"
    then have "(of_char d' :: nat) = (m + 32) mod 256"
      by (metis of_char_of)
    with that show "of_char d' = m + 32" by simp
  next
    assume "of_char d' = m + 32"
    then show "char_of (m + 32) = d'"
      by (metis char_of_char)
  qed
  show ?thesis
    using * [of "of_char c" "of_char d"] ** [of "of_char c" d] ** [of "of_char d" c]
    by (auto simp: fold_letter_def same_letter_def)
qed

lemma plain_substring_short: "length xs < length sub \<Longrightarrow> \<not> plain_substring sub xs"
  by (induction xs) auto

lemma contains_from_plain:
  "contains_from s sub i = (i \<le> length s \<and> plain_substring sub (drop i s))"
proof (induction s sub i rule: contains_from.induct)
  case (1 s sub i)
  show ?case
  proof (cases "int i \<le> int (length s) - int (length sub)")
    case False
    then have "i \<le> length s \<Longrightarrow> length (drop i s) < length sub"
      by simp
    with False plain_substring_short [of "drop i s" sub] show ?thesis
      by (subst contains_from.simps) auto
  next
    case in_range: True
    then have i: "i \<le> length s"
      by simp
    show ?thesis
    proof (cases "take (length sub) (drop i s) = sub")
      case True
      with in_range i show ?thesis
        by (subst contains_from.simps) (cases "drop i s", auto)
    next
      case False
      with in_range have "i < length s"
        by (cases "i = length s") auto
      then obtain c where c: "drop i s = c # drop (Suc i) s"
        by (metis Cons_nth_drop_Suc)
      from "1.IH" [OF in_range False]
      have "contains_from s sub (i + 1) = (i + 1 \<le> length s \<and> plain_substring sub (drop (i + 1) s))" .
      with in_range False c \<open>i < length s\<close> show ?thesis
        by (subst contains_from.simps) auto
    qed
  qed
qed

lemma take_fold_prefix:
  "(take (length sub) (map fold_letter s) = map fold_letter sub) = ci_prefix sub s"
proof (induction sub s rule: ci_prefix.induct)
  case (3 h hs c cs)
  then show ?case
    by (auto simp: fold_letter_eq [symmetric])
qed auto

lemma plain_fold_substring:
  "plain_substring (map fold_letter sub) (map fold_letter s) = ci_substring sub s"
proof (induction s)
  case Nil
  then show ?case by (cases sub) auto
next
  case (Cons c cs)
  from take_fold_prefix [of sub "c # cs"] Cons show ?case
    by simp
qed

lemma containsIgnoreCase_ascii:
  "ascii s \<Longrightarrow> ascii sub \<Longrightarrow> containsIgnoreCase s sub = ci_substring sub s"
  by (simp add: containsIgnoreCase_def contains_def toLower_ascii contains_from_plain
      plain_fold_substring)

text \<open>
  The part of C9 that holds.  The search returns the first listed todo that the code's
  test accepts; the todos listed are the caller's own active ones; and on ASCII titles
  and hints the code's test is the case-insensitive substring test.
\<close>

lemma FindTodoByTitle_range_find:
  "FindTodoByTitle_range listed hint = find (\<lambda>t. containsIgnoreCase (pb_Title t) hint) listed"
  by (induction listed) simp_all

lemma Client_ListTodos_active:
  assumes "Client_ListTodos e db userID TODO_STATUS_ACTIVE = Inr listed" and "t \<in> set listed"
  shows "pb_UserId t = userID \<and> pb_Status t = TODO_STATUS_ACTIVE"
  using assms
  by (auto simp: Client_ListTodos_def Server_ListTodos_def Store_ListTodos_def storeToProto_def
      Let_def split: if_splits sum.splits)

lemma FindTodoByTitle_ascii:
  assumes "Client_ListTodos e db userID TODO_STATUS_ACTIVE = Inr listed"
    and "ascii hint" and "\<forall>t \<in> set listed. ascii (pb_Title t)"
  shows "FindTodoByTitle e db userID hint =
           Inr (find (\<lambda>t. ci_substring hint (pb_Title t)) listed)"
proof -
  have "find (\<lambda>t. containsIgnoreCase (pb_Title t) hint) listed =
      find (\<lambda>t. ci_substring hint (pb_Title t)) listed"
    using assms(2,3) by (intro find_cong) (simp_all add: containsIgnoreCase_ascii)
  with assms(1) show ?thesis
    by (simp add: FindTodoByTitle_def FindTodoByTitle_range_find)
qed

section \<open>The primary key is kept\<close>

text \<open>
  The assumption of a primary key is one the code maintains: ids come from the
  sequence, the updates leave them alone, and every database that the server's
  methods make of the empty one has distinct ids.
\<close>

lemma update_rows_ids:
  "(\<And>r. ID (f r) = ID r) \<Longrightarrow> map ID (update_rows P f rows) = map ID rows"
  by (induction rows) (simp_all add: update_rows_def)

lemma serial_ids_cong:
  "map ID (todos db') = map ID (todos db) \<Longrightarrow> todos_id_seq db' = todos_id_seq db \<Longrightarrow>
   serial_ids db' = serial_ids db"
  by (simp add: serial_ids_def primary_key_def)

lemma Store_updates_keep_ids:
  "map ID (todos (snd (Store_CompleteTodo e db i u a))) = map ID (todos db)
     \<and> todos_id_seq (snd (Store_CompleteTodo e db i u a)) = todos_id_seq db"
  "map ID (todos (snd (Store_DeleteTodo e db i u))) = map ID (todos db)
     \<and> todos_id_seq (snd (Store_DeleteTodo e db i u)) = todos_id_seq db"
  "map ID (todos (snd (Store_EditTodo e db i u ti de))) = map ID (todos db)
     \<and> todos_id_seq (snd (Store_EditTodo e db i u ti de)) = todos_id_seq db"
  by (simp_all add: Store_CompleteTodo_def Store_DeleteTodo_def Store_EditTodo_def Let_def
      update_rows_ids split: sum.splits)

lemma Store_CreateTodo_serial_ids:
  assumes "serial_ids db"
  shows "serial_ids (snd (Store_CreateTodo e db u ti de))"
proof (cases "exec_err e")
  case True
  with assms show ?thesis
    by (simp add: Store_CreateTodo_def Let_def serial_ids_def primary_key_def)
next
  case False
  have "todos_id_seq db + 1 \<notin> set (map ID (todos db))"
    using assms by (force simp: serial_ids_def)
  with assms False show ?thesis
    by (simp add: Store_CreateTodo_def Let_def serial_ids_def primary_key_def) force
qed

lemma Store_call_serial_ids:
  assumes "serial_ids db"
  shows "serial_ids (snd (Store_call m e db req))"
proof (cases m)
  case CreateTodo
  with assms Store_CreateTodo_serial_ids show ?thesis
    by (simp add: Store_call_def)
next
  case CompleteTodo
  have "serial_ids (snd (Store_CompleteTodo e db i u a)) = serial_ids db" for i u a
    by (rule serial_ids_cong) (simp_all add: Store_updates_keep_ids)
  with assms CompleteTodo show ?thesis
    by (simp add: Store_call_def)
next
  case DeleteTodo
  have "serial_ids (snd (Store_DeleteTodo e db i u)) = serial_ids db" for i u
    by (rule serial_ids_cong) (simp_all add: Store_updates_keep_ids)
  with assms DeleteTodo show ?thesis
    by (simp add: Store_call_def)
next
  case EditTodo
  have "serial_ids (snd (Store_EditTodo e db i u ti de)) = serial_ids db" for i u ti de
    by (rule serial_ids_cong) (simp_all add: Store_updates_keep_ids)
  with assms EditTodo show ?thesis
    by (simp add: Store_call_def)
qed

lemma Execute_serial_ids:
  assumes "serial_ids db" "serial_ids (snd mutation)"
  shows "serial_ids (snd (Execute c e db key mutation))"
proof -
  have "serial_ids (record_idempotency c e db1 key r) = serial_ids db1" for db1 r
    by (rule serial_ids_cong) simp_all
  with assms show ?thesis
    by (cases mutation) (simp add: Execute_def split: sum.splits option.splits)
qed

lemma Server_call_serial_ids:
  assumes "serial_ids db"
  shows "serial_ids (snd (Server_call m c e db req))"
proof (cases "validates m req")
  case True
  with assms Store_call_serial_ids [OF assms, of m e req] show ?thesis
    by (simp add: Server_call_valid Execute_serial_ids)
next
  case False
  with Server_call_invalid [OF False] assms show ?thesis
    by auto
qed

lemma serial_ids_empty: "serial_ids ex_empty"
  by (simp add: serial_ids_def primary_key_def ex_empty_def)

end
